theory Spec2Isabelle
  imports Main
begin

section \<open>Values shared by all providers\<close>

text \<open>
  JavaScript lets any value be thrown or be the reason of a rejected promise. The chain
  distinguishes three kinds (\<^verbatim>\<open>err instanceof Error\<close>, truthy, falsy) and prints the
  first two, so the model keeps what the printing needs:
  \<^item> \<open>JsError\<close>: an \<^verbatim>\<open>Error\<close> object with its \<^verbatim>\<open>stack\<close> property (a string, or absent)
    and its \<^verbatim>\<open>message\<close>, as the interface of \<^verbatim>\<open>Error\<close> declares them;
  \<^item> \<open>Truthy\<close>: any other truthy value, with the text its \<^verbatim>\<open>toString()\<close> gives;
  \<^item> \<open>Unprintable\<close>: a truthy value that cannot be printed: evaluating the line the
    \<^verbatim>\<open>catch\<close> block would push throws the value given. An object without a callable
    \<^verbatim>\<open>toString\<close> (\<^verbatim>\<open>Object.create(null)\<close>) makes \<^verbatim>\<open>err.toString()\<close> throw a
    \<^verbatim>\<open>TypeError\<close>; so does an \<^verbatim>\<open>Error\<close> whose \<^verbatim>\<open>stack\<close> is not a string;
  \<^item> \<open>Falsy\<close>: \<^verbatim>\<open>undefined\<close>, \<^verbatim>\<open>null\<close>, \<^verbatim>\<open>false\<close>, \<^verbatim>\<open>0\<close>, \<^verbatim>\<open>NaN\<close>, the empty string.
\<close>

datatype js_value =
    JsError (stack: "string option") (message: string)
  | Truthy string
  | Unprintable js_value
  | Falsy

definition newline :: char where
  "newline = CHR 0x0A"

text \<open>\<^verbatim>\<open>s.split('\n')[0]\<close>: the text before the first line feed.\<close>

definition first_line :: "string \<Rightarrow> string" where
  "first_line s = takeWhile (\<lambda>c. c \<noteq> newline) s"

text \<open>
  \<^verbatim>\<open>new Error(msg)\<close> under V8: the stack starts with the header line
  \<^verbatim>\<open>Error: msg\<close> (just \<^verbatim>\<open>Error\<close> for an empty message). The frames that V8 appends
  after a line feed are left out of the model; the code only ever reads the first line.
\<close>

definition new_Error :: "string \<Rightarrow> js_value" where
  "new_Error msg = JsError (Some (if msg = [] then ''Error'' else ''Error: '' @ msg)) msg"

text \<open>A \<^verbatim>\<open>Date\<close>: a time value in milliseconds, or the invalid date (time value NaN).\<close>

datatype date = Date int | InvalidDate

record credentials =
  awsAccessKeyId :: string
  awsSecretKey :: string
  sessionToken :: "string option"
  expiresAt :: "date option"
  region :: "string option"

type_synonym outcome = "js_value + credentials"

section \<open>CredentialsProviderChain\<close>

text \<open>
  An entry of \<^verbatim>\<open>#chain\<close> is a function \<^verbatim>\<open>() => CredentialsProvider\<close>. The chain uses it
  in two ways: it calls it (\<open>call\<close>: the instance made, or the value the call throws)
  and it prints its source text (\<open>source\<close>: \<^verbatim>\<open>providerFunc.toString()\<close>). The type
  \<open>'p\<close> is the state of a provider instance; \<^verbatim>\<open>provider.getCredentials()\<close>, awaited,
  is a function from that state to the outcome and the state afterwards.
\<close>

record 'p factory =
  source :: string
  call :: "js_value + 'p"

record 'p CredentialsProviderChain =
  chain :: "'p factory list"
  supplier :: "'p option"

text \<open>\<^verbatim>\<open>providerFunc.toString().replace(/^\(\) => new /, '')\<close>\<close>

definition providerLabel :: "string \<Rightarrow> string" where
  "providerLabel src = (if take 10 src = ''() => new '' then drop 10 src else src)"

definition srcName :: "'p factory \<Rightarrow> string" where
  "srcName f = ''    - '' @ providerLabel (source f) @ '' ''"

text \<open>\<^verbatim>\<open>err.stack?.split('\n')[0] || err.message\<close>\<close>

definition error_summary :: "js_value \<Rightarrow> string" where
  "error_summary err =
     (case stack err of
        None \<Rightarrow> message err
      | Some s \<Rightarrow> if first_line s = [] then message err else first_line s)"

text \<open>
  The body of the \<^verbatim>\<open>catch (err)\<close> block: \<open>errors\<close> after it has run, or the value it
  throws. Nothing protects the block: what it throws leaves the loop and becomes the
  rejection of \<^verbatim>\<open>getCredentials\<close>.
\<close>

definition catch_block ::
  "'p factory \<Rightarrow> js_value \<Rightarrow> string list \<Rightarrow> js_value + string list" where
  "catch_block f err errors =
     (case err of
        JsError st msg \<Rightarrow> Inr (errors @ [srcName f @ error_summary err])
      | Truthy str \<Rightarrow> Inr (errors @ [srcName f @ str])
      | Unprintable thrown \<Rightarrow> Inl thrown
      | Falsy \<Rightarrow> Inr errors)"

text \<open>\<^verbatim>\<open>lines.join('\n')\<close>\<close>

fun join_lines :: "string list \<Rightarrow> string" where
  "join_lines [] = []"
| "join_lines [l] = l"
| "join_lines (l # ls) = l @ newline # join_lines ls"

definition aggregate_error :: "string list \<Rightarrow> js_value" where
  "aggregate_error errors =
     new_Error (join_lines (''Failed to load any possible AWS credentials:'' # errors))"

text \<open>
  The calls the loop makes are recorded in a log that nothing reads back:
  \<open>Instantiate i\<close> for \<^verbatim>\<open>providerFunc()\<close> of entry \<open>i\<close> (counted from 0),
  \<open>Resolve i\<close> for \<^verbatim>\<open>provider.getCredentials()\<close> on the instance it made, and
  \<open>Delegate\<close> for \<^verbatim>\<open>this.#supplier.getCredentials()\<close>.
\<close>

datatype event = Instantiate nat | Resolve nat | Delegate

text \<open>The \<^verbatim>\<open>for\<close> loop of \<^verbatim>\<open>getCredentials\<close>, from entry \<open>i\<close> on.\<close>

fun discover ::
  "('p \<Rightarrow> outcome \<times> 'p) \<Rightarrow> 'p factory list \<Rightarrow> nat \<Rightarrow> string list
     \<Rightarrow> outcome \<times> 'p option \<times> event list" where
  "discover getCreds [] i errors = (Inl (aggregate_error errors), None, [])"
| "discover getCreds (f # fs) i errors =
     (case call f of
        Inl err \<Rightarrow>
          (case catch_block f err errors of
             Inl thrown \<Rightarrow> (Inl thrown, None, [Instantiate i])
           | Inr errors' \<Rightarrow>
               (case discover getCreds fs (Suc i) errors' of
                  (r, pin, evs) \<Rightarrow> (r, pin, Instantiate i # evs)))
      | Inr provider \<Rightarrow>
          (case getCreds provider of
             (Inr creds, provider') \<Rightarrow> (Inr creds, Some provider', [Instantiate i, Resolve i])
           | (Inl err, provider') \<Rightarrow>
               (case catch_block f err errors of
                  Inl thrown \<Rightarrow> (Inl thrown, None, [Instantiate i, Resolve i])
                | Inr errors' \<Rightarrow>
                    (case discover getCreds fs (Suc i) errors' of
                       (r, pin, evs) \<Rightarrow> (r, pin, Instantiate i # Resolve i # evs)))))"

definition CredentialsProviderChain_getCredentials ::
  "('p \<Rightarrow> outcome \<times> 'p) \<Rightarrow> 'p CredentialsProviderChain
     \<Rightarrow> outcome \<times> 'p CredentialsProviderChain \<times> event list" where
  "CredentialsProviderChain_getCredentials getCreds c =
     (case supplier c of
        Some p \<Rightarrow>
          (case getCreds p of (r, p') \<Rightarrow> (r, c\<lparr>supplier := Some p'\<rparr>, [Delegate]))
      | None \<Rightarrow>
          (case discover getCreds (chain c) 0 [] of
             (r, pin, evs) \<Rightarrow> (r, c\<lparr>supplier := pin\<rparr>, evs)))"

text \<open>What one entry of the chain does when the loop reaches it.\<close>

definition provider_fails :: "('p \<Rightarrow> outcome \<times> 'p) \<Rightarrow> 'p factory \<Rightarrow> bool" where
  "provider_fails getCreds f =
     (case call f of Inl err \<Rightarrow> True | Inr p \<Rightarrow> isl (fst (getCreds p)))"

definition failure_of :: "('p \<Rightarrow> outcome \<times> 'p) \<Rightarrow> 'p factory \<Rightarrow> js_value" where
  "failure_of getCreds f =
     (case call f of Inl err \<Rightarrow> err | Inr p \<Rightarrow> projl (fst (getCreds p)))"

definition attempt_events :: "'p factory \<Rightarrow> nat \<Rightarrow> event list" where
  "attempt_events f j = (if isl (call f) then [Instantiate j] else [Instantiate j, Resolve j])"

text \<open>A failure the \<^verbatim>\<open>catch\<close> block gets through without throwing.\<close>

definition printable :: "js_value \<Rightarrow> bool" where
  "printable err = (case err of Unprintable thrown \<Rightarrow> False | _ \<Rightarrow> True)"

text \<open>What the \<^verbatim>\<open>catch\<close> block adds to \<^verbatim>\<open>errors\<close> for one failed entry.\<close>

definition failure_lines :: "('p \<Rightarrow> outcome \<times> 'p) \<Rightarrow> 'p factory \<Rightarrow> string list" where
  "failure_lines getCreds f =
     (case catch_block f (failure_of getCreds f) [] of Inl thrown \<Rightarrow> [] | Inr ls \<Rightarrow> ls)"

definition failure_reason :: "js_value \<Rightarrow> string" where
  "failure_reason err = (case err of Truthy str \<Rightarrow> str | _ \<Rightarrow> error_summary err)"

section \<open>SharedIniFileCredentials\<close>

text \<open>
  Every provider class keeps \<^verbatim>\<open>#promise\<close>. A promise is modelled by a handle: the
  number of the \<^verbatim>\<open>load()\<close> call that made it. \<open>loads\<close> counts the calls of
  \<^verbatim>\<open>load()\<close> so far; the code does not have it, and nothing in the model reads it
  except to number the next promise.
\<close>

record provider_base =
  promise :: "nat option"
  loads :: nat

record SharedIniFileCredentials = provider_base +
  filename :: string
  filedata :: "string option"
  profile :: string

text \<open>
  \<^verbatim>\<open>if (!this.#promise) this.#promise = this.load(); return this.#promise;\<close>
  is the whole of \<^verbatim>\<open>getCredentials\<close>. Its \<^verbatim>\<open>load\<close> is an \<^verbatim>\<open>async\<close> function, so the
  call always gives a promise. The result is the promise handed to the caller.
  (\<^verbatim>\<open>EnvironmentCredentials.getCredentials\<close> has the same two lines, but its \<^verbatim>\<open>load\<close> is
  not \<^verbatim>\<open>async\<close>: when reading the environment throws, no promise is stored. That class
  is not modelled.)
\<close>

definition SharedIniFileCredentials_getCredentials ::
  "'a provider_base_scheme \<Rightarrow> nat \<times> 'a provider_base_scheme" where
  "SharedIniFileCredentials_getCredentials self =
     (case promise self of
        None \<Rightarrow> (loads self, self\<lparr>promise := Some (loads self), loads := Suc (loads self)\<rparr>)
      | Some p \<Rightarrow> (p, self))"

text \<open>Calling \<^verbatim>\<open>getCredentials\<close> \<open>n\<close> times in a row: the promises returned and the state.\<close>

fun SharedIniFileCredentials_calls ::
  "nat \<Rightarrow> 'a provider_base_scheme \<Rightarrow> nat list \<times> 'a provider_base_scheme" where
  "SharedIniFileCredentials_calls 0 self = ([], self)"
| "SharedIniFileCredentials_calls (Suc n) self =
     (case SharedIniFileCredentials_getCredentials self of
        (p, self') \<Rightarrow>
          (case SharedIniFileCredentials_calls n self' of (ps, self'') \<Rightarrow> (p # ps, self'')))"

text \<open>
  A section of the parsed ini file, with the fields the code declares for it. The
  parser (\<^verbatim>\<open>ini.decode\<close>) and \<^verbatim>\<open>Deno.readTextFile\<close> are parameters of \<open>load\<close>.
\<close>

record ini_section =
  aws_access_key_id :: "string option"
  aws_secret_access_key :: "string option"
  aws_session_token :: "string option"
  credential_process :: "string option"
  ini_region :: "string option"

text \<open>\<^verbatim>\<open>!x\<close> for an optional string: true for \<^verbatim>\<open>undefined\<close>, \<^verbatim>\<open>null\<close> and the empty string.\<close>

definition falsy_string :: "string option \<Rightarrow> bool" where
  "falsy_string x = (case x of None \<Rightarrow> True | Some str \<Rightarrow> str = [])"

definition SharedIniFileCredentials_load ::
  "(string \<Rightarrow> js_value + string) \<Rightarrow> (string \<Rightarrow> (string \<rightharpoonup> ini_section))
     \<Rightarrow> SharedIniFileCredentials \<Rightarrow> outcome" where
  "SharedIniFileCredentials_load readTextFile ini_decode self =
     (case (case filedata self of Some t \<Rightarrow> Inr t | None \<Rightarrow> readTextFile (filename self)) of
        Inl err \<Rightarrow> Inl err
      | Inr text \<Rightarrow>
          (let data = ini_decode text;
               config = (case data (''profile '' @ profile self) of
                           Some c \<Rightarrow> Some c
                         | None \<Rightarrow> data (profile self))
           in case config of
                None \<Rightarrow>
                  Inl (new_Error (''Profile '' @ profile self @ '' not found in credentials file''))
              | Some c \<Rightarrow>
                  if falsy_string (aws_access_key_id c) \<or> falsy_string (aws_secret_access_key c)
                  then Inl (new_Error (''Profile '' @ profile self @ '' lacks static credentials''))
                  else Inr \<lparr>awsAccessKeyId = the (aws_access_key_id c),
                            awsSecretKey = the (aws_secret_access_key c),
                            sessionToken = aws_session_token c,
                            expiresAt = None,
                            region = ini_region c\<rparr>))"

section \<open>EcsTaskCredentials, TokenFileWebIdentityCredentials, EC2MetadataCredentials\<close>

text \<open>
  The three classes have the same \<^verbatim>\<open>getCredentials\<close>, character for character, over
  the fields \<^verbatim>\<open>#promise\<close> and \<^verbatim>\<open>#expireAfter\<close>. JavaScript runs it on one thread: a
  call of \<^verbatim>\<open>getCredentials\<close> runs to its \<^verbatim>\<open>return\<close>, and later, when the promise of
  \<^verbatim>\<open>load()\<close> settles, one of the two callbacks given to \<^verbatim>\<open>then\<close> runs. These are
  the two steps of the model. Times are \<^verbatim>\<open>Date\<close> values in milliseconds.
  \<open>settled\<close> is the state of the promises made so far: \<open>None\<close> while pending.
\<close>

record network_provider = provider_base +
  expireAfter :: "int option"
  settled :: "nat \<Rightarrow> outcome option"

definition initial_provider :: network_provider where
  "initial_provider =
     \<lparr>promise = None, loads = 0, expireAfter = None, settled = (\<lambda>pid. None)\<rparr>"

definition EcsTaskCredentials_getCredentials ::
  "int \<Rightarrow> network_provider \<Rightarrow> nat \<times> network_provider" where
  "EcsTaskCredentials_getCredentials now self =
     (let self1 = (case expireAfter self of
                     Some e \<Rightarrow> if e < now then self\<lparr>expireAfter := None, promise := None\<rparr> else self
                   | None \<Rightarrow> self)
      in case promise self1 of
           None \<Rightarrow>
             (loads self1, self1\<lparr>promise := Some (loads self1), loads := Suc (loads self1)\<rparr>)
         | Some p \<Rightarrow> (p, self1))"

abbreviation (input) TokenFileWebIdentityCredentials_getCredentials ::
  "int \<Rightarrow> network_provider \<Rightarrow> nat \<times> network_provider" where
  "TokenFileWebIdentityCredentials_getCredentials \<equiv> EcsTaskCredentials_getCredentials"

abbreviation (input) EC2MetadataCredentials_getCredentials ::
  "int \<Rightarrow> network_provider \<Rightarrow> nat \<times> network_provider" where
  "EC2MetadataCredentials_getCredentials \<equiv> EcsTaskCredentials_getCredentials"

text \<open>
  The first callback of \<^verbatim>\<open>then\<close>:
  \<^verbatim>\<open>if (x.expiresAt && x.expiresAt > new Date()) this.#expireAfter = new Date(x.expiresAt.valueOf() - 60*1000)\<close>.
  A \<^verbatim>\<open>Date\<close> object is truthy even when invalid, and an invalid date compares false.
\<close>

definition on_fulfilled :: "int \<Rightarrow> credentials \<Rightarrow> network_provider \<Rightarrow> network_provider" where
  "on_fulfilled now x self =
     (case expiresAt x of
        Some (Date t) \<Rightarrow> if t > now then self\<lparr>expireAfter := Some (t - 60 * 1000)\<rparr> else self
      | Some InvalidDate \<Rightarrow> self
      | None \<Rightarrow> self)"

text \<open>The second callback: \<^verbatim>\<open>this.#expireAfter = new Date(Date.now() + 30*1000)\<close>.\<close>

definition on_rejected :: "int \<Rightarrow> js_value \<Rightarrow> network_provider \<Rightarrow> network_provider" where
  "on_rejected now err self = self\<lparr>expireAfter := Some (now + 30 * 1000)\<rparr>"

text \<open>The promise \<open>pid\<close> of \<^verbatim>\<open>load()\<close> settles with \<open>out\<close> at time \<open>now\<close>.\<close>

definition settle :: "nat \<Rightarrow> outcome \<Rightarrow> int \<Rightarrow> network_provider \<Rightarrow> network_provider" where
  "settle pid out now self =
     (case out of
        Inr x \<Rightarrow> on_fulfilled now x self
      | Inl err \<Rightarrow> on_rejected now err self)\<lparr>settled := (settled self)(pid \<mapsto> out)\<rparr>"

text \<open>
  The states a provider can be in: made by the constructor, then any interleaving of
  calls and of settlements of promises that are pending.
\<close>

inductive reachable :: "network_provider \<Rightarrow> bool" where
  constructed: "reachable initial_provider"
| called: "reachable self \<Longrightarrow> reachable (snd (EcsTaskCredentials_getCredentials now self))"
| settles: "reachable self \<Longrightarrow> pid < loads self \<Longrightarrow> settled self pid = None
              \<Longrightarrow> reachable (settle pid out now self)"

text \<open>Calls at the given times, one after the other, with nothing settling in between.\<close>

fun EcsTaskCredentials_calls :: "int list \<Rightarrow> network_provider \<Rightarrow> nat list \<times> network_provider" where
  "EcsTaskCredentials_calls [] self = ([], self)"
| "EcsTaskCredentials_calls (now # nows) self =
     (case EcsTaskCredentials_getCredentials now self of
        (p, self') \<Rightarrow>
          (case EcsTaskCredentials_calls nows self' of (ps, self'') \<Rightarrow> (p # ps, self'')))"

definition outstanding :: "network_provider \<Rightarrow> nat set" where
  "outstanding self = {pid. pid < loads self \<and> settled self pid = None}"

section \<open>JavaScript numbers\<close>

text \<open>
  A finite IEEE-754 double is \<open>m * 2 ^ e\<close> for integers \<open>m\<close> and \<open>e\<close>, and is kept
  as the pair \<open>(m, e)\<close>. \<open>round_double\<close> rounds such a value to 53 significant bits,
  to nearest, ties to even, as every arithmetic operation of JavaScript does. NaN, the
  infinities, overflow and the subnormal range are not modelled.
\<close>

type_synonym double = "int \<times> int"

function bit_length :: "int \<Rightarrow> nat" where
  "bit_length n = (if n \<le> 0 then 0 else Suc (bit_length (n div 2)))"
  by pat_completeness auto
termination
  by (relation "measure nat") auto

declare bit_length.simps [simp del]

definition round_double :: "double \<Rightarrow> double" where
  "round_double x =
     (case x of (m, e) \<Rightarrow>
        let a = \<bar>m\<bar>; b = bit_length a
        in if b \<le> 53 then (m, e)
           else let s = b - 53;
                    q = a div 2 ^ s;
                    r = a mod 2 ^ s;
                    h = 2 ^ (s - 1);
                    q' = (if h < r \<or> (r = h \<and> odd q) then q + 1 else q)
                in (sgn m * q', e + int s))"

text \<open>\<^verbatim>\<open>x * y\<close>\<close>

definition js_times :: "double \<Rightarrow> double \<Rightarrow> double" where
  "js_times x y = round_double (fst x * fst y, snd x + snd y)"

text \<open>\<^verbatim>\<open>Math.floor(x)\<close>\<close>

definition Math_floor :: "double \<Rightarrow> int" where
  "Math_floor x = (case x of (m, e) \<Rightarrow> if 0 \<le> e then m * 2 ^ nat e else m div 2 ^ nat (- e))"

text \<open>The literal \<^verbatim>\<open>0.95\<close>: the double nearest to it, \<^verbatim>\<open>0x1.e666666666666p-1\<close>.\<close>

definition literal_0_95 :: double where
  "literal_0_95 = (8556839292003942, - 53)"

definition of_integer :: "int \<Rightarrow> double" where
  "of_integer n = (n, 0)"

section \<open>IMDSv2\<close>

text \<open>\<^verbatim>\<open>Deno.env.get(name)\<close>: it may throw (no permission), give \<^verbatim>\<open>undefined\<close> or a string.\<close>

datatype env_read = Throws | Undefined | Str string

datatype endpoint_mode = IPv4 | IPv6

record IMDSv2_options =
  opt_serviceEndpoint :: "string option"
  opt_endpointMode :: "endpoint_mode option"
  opt_endpointPath :: "string option"
  opt_timeoutMs :: "double option"
  opt_apiTimeoutMs :: "double option"
  opt_tokenTtlSeconds :: "double option"

definition no_options :: IMDSv2_options where
  "no_options =
     \<lparr>opt_serviceEndpoint = None, opt_endpointMode = None, opt_endpointPath = None,
      opt_timeoutMs = None, opt_apiTimeoutMs = None, opt_tokenTtlSeconds = None\<rparr>"

record IMDSv2 =
  baseUrl :: string
  timeoutMs :: int
  apiTimeoutMs :: int
  tokenTtlSeconds :: int
  cachedToken :: "string option"

text \<open>
  The constructor. \<^verbatim>\<open>new URL(path, base)\<close> is a parameter: it gives the URL's text or
  throws. Each read of the environment sits in a \<^verbatim>\<open>try\<close> with an empty \<^verbatim>\<open>catch\<close>.
\<close>

definition IMDSv2_constructor ::
  "(string \<Rightarrow> env_read) \<Rightarrow> (string \<Rightarrow> string \<Rightarrow> js_value + string) \<Rightarrow> IMDSv2_options
     \<Rightarrow> js_value + IMDSv2" where
  "IMDSv2_constructor env new_URL opts =
     (let disabled = (case env ''AWS_EC2_METADATA_DISABLED'' of
                        Str v \<Rightarrow> v = ''true''
                      | _ \<Rightarrow> False)
      in if disabled
         then Inl (new_Error
                ''IMDSv2 client is disabled via environment: AWS_EC2_METADATA_DISABLED=true'')
         else
           let serviceEndpoint1 =
                 (if falsy_string (opt_serviceEndpoint opts)
                  then (case env ''AWS_EC2_METADATA_SERVICE_ENDPOINT'' of
                          Str v \<Rightarrow> Some v
                        | Undefined \<Rightarrow> None
                        | Throws \<Rightarrow> opt_serviceEndpoint opts)
                  else opt_serviceEndpoint opts);
               endpointMode1 =
                 (if opt_endpointMode opts = None
                     \<and> env ''AWS_EC2_METADATA_SERVICE_ENDPOINT_MODE'' = Str ''IPv6''
                  then Some IPv6 else opt_endpointMode opts);
               serviceEndpoint2 =
                 (if falsy_string serviceEndpoint1
                  then (if endpointMode1 = Some IPv6 then ''http://[fd00:ec2::254]''
                        else ''http://169.254.169.254'')
                  else the serviceEndpoint1);
               endpointPath = (case opt_endpointPath opts of None \<Rightarrow> ''latest/'' | Some p \<Rightarrow> p)
           in case new_URL endpointPath serviceEndpoint2 of
                Inl err \<Rightarrow> Inl err
              | Inr url \<Rightarrow>
                  Inr \<lparr>baseUrl = url,
                       timeoutMs =
                         Math_floor (case opt_timeoutMs opts of None \<Rightarrow> of_integer 1000 | Some t \<Rightarrow> t),
                       apiTimeoutMs =
                         Math_floor (case opt_apiTimeoutMs opts of None \<Rightarrow> of_integer 5000 | Some t \<Rightarrow> t),
                       tokenTtlSeconds =
                         Math_floor (case opt_tokenTtlSeconds opts of None \<Rightarrow> of_integer 21600 | Some t \<Rightarrow> t),
                       cachedToken = None\<rparr>)"

datatype http_method = GET | HEAD | PUT

text \<open>
  The headers the client sends: the TTL asked for (printed with \<^verbatim>\<open>toFixed(0)\<close>) and the
  token.
\<close>

datatype header = Token_ttl_seconds int | Metadata_token string

record raw_request =
  request_method :: http_method
  path :: string
  request_timeoutMs :: int
  headers :: "header list"

text \<open>
  \<^verbatim>\<open>#performRawRequest\<close> is a parameter of the two methods below: for a request it
  gives the text of the response, or the error it throws (a timeout, an HTTP status).
  \<open>fetchNewToken\<close> returns its result and the request it made.
\<close>

definition IMDSv2_fetchNewToken ::
  "(raw_request \<Rightarrow> js_value + string) \<Rightarrow> IMDSv2 \<Rightarrow> (js_value + string \<times> int) \<times> raw_request" where
  "IMDSv2_fetchNewToken performRawRequest self =
     (let ttlSeconds = tokenTtlSeconds self;
          request = \<lparr>request_method = PUT, path = ''api/token'',
                     request_timeoutMs =
                       (if \<not> falsy_string (cachedToken self) then apiTimeoutMs self
                        else timeoutMs self),
                     headers = [Token_ttl_seconds ttlSeconds]\<rparr>
      in (case performRawRequest request of
            Inl err \<Rightarrow> Inl err
          | Inr respText \<Rightarrow>
              Inr (respText,
                   Math_floor (js_times (js_times (of_integer ttlSeconds) literal_0_95)
                                 (of_integer 1000))),
          request))"

text \<open>
  \<open>getToken\<close> returns its result, the client afterwards, the requests it made, and the
  timers it set with \<^verbatim>\<open>setTimeout\<close>: each a delay in milliseconds and the token its
  callback holds.
\<close>

definition IMDSv2_getToken ::
  "(raw_request \<Rightarrow> js_value + string) \<Rightarrow> IMDSv2
     \<Rightarrow> (js_value + string) \<times> IMDSv2 \<times> raw_request list \<times> (int \<times> string) list" where
  "IMDSv2_getToken performRawRequest self =
     (if \<not> falsy_string (cachedToken self) then (Inr (the (cachedToken self)), self, [], [])
      else
        (case IMDSv2_fetchNewToken performRawRequest self of
           (Inl err, request) \<Rightarrow> (Inl err, self, [request], [])
         | (Inr (newToken, expireAfterMillis), request) \<Rightarrow>
             (Inr newToken, self\<lparr>cachedToken := Some newToken\<rparr>, [request],
              [(max 1000 expireAfterMillis, newToken)])))"

text \<open>
  The callback given to \<^verbatim>\<open>setTimeout\<close>:
  \<^verbatim>\<open>if (this.cachedToken === newToken) this.cachedToken = null\<close>.
\<close>

definition token_timer_fires :: "string \<Rightarrow> IMDSv2 \<Rightarrow> IMDSv2" where
  "token_timer_fires newToken self =
     (if cachedToken self = Some newToken then self\<lparr>cachedToken := None\<rparr> else self)"

text \<open>
  The constructor of \<^verbatim>\<open>EC2MetadataCredentials\<close>:
  \<^verbatim>\<open>this.#service = opts.client ?? new IMDSv2\<close>; \<^verbatim>\<open>#promise\<close> and \<^verbatim>\<open>#expireAfter\<close> start
  as \<^verbatim>\<open>null\<close>.
\<close>

record EC2MetadataCredentials =
  service :: IMDSv2
  cache :: network_provider

definition EC2MetadataCredentials_constructor ::
  "(string \<Rightarrow> env_read) \<Rightarrow> (string \<Rightarrow> string \<Rightarrow> js_value + string) \<Rightarrow> IMDSv2 option
     \<Rightarrow> js_value + EC2MetadataCredentials" where
  "EC2MetadataCredentials_constructor env new_URL client =
     (case (case client of
              Some c \<Rightarrow> Inr c
            | None \<Rightarrow> IMDSv2_constructor env new_URL no_options) of
        Inl err \<Rightarrow> Inl err
      | Inr c \<Rightarrow> Inr \<lparr>service = c, cache = initial_provider\<rparr>)"

text \<open>
  The last entry of \<^verbatim>\<open>DefaultCredentialsProvider\<close>:
  \<^verbatim>\<open>() => new EC2MetadataCredentials()\<close>. \<open>inject\<close> places the instance among the
  providers of the chain.
\<close>

definition EC2MetadataCredentials_factory ::
  "(string \<Rightarrow> env_read) \<Rightarrow> (string \<Rightarrow> string \<Rightarrow> js_value + string)
     \<Rightarrow> (EC2MetadataCredentials \<Rightarrow> 'p) \<Rightarrow> 'p factory" where
  "EC2MetadataCredentials_factory env new_URL inject =
     \<lparr>source = ''() => new EC2MetadataCredentials()'',
      call = map_sum id inject (EC2MetadataCredentials_constructor env new_URL None)\<rparr>"

section \<open>Auxiliary notions for the proofs\<close>

text \<open>
  What every reachable state of a network-backed provider satisfies: a promise that is
  still pending is the one held in \<^verbatim>\<open>#promise\<close>, and no watermark is set while it is
  pending.
\<close>

definition slot_ok :: "network_provider \<Rightarrow> bool" where
  "slot_ok self \<longleftrightarrow>
     (\<forall>pid < loads self. settled self pid = None \<longrightarrow> promise self = Some pid \<and> expireAfter self = None)
   \<and> (promise self = None \<longrightarrow> loads self = 0)
   \<and> (loads self = 0 \<longrightarrow> expireAfter self = None)
   \<and> (\<forall>p. promise self = Some p \<longrightarrow> p < loads self)"

section \<open>Concrete inputs\<close>

text \<open>
  A provider for examples: its state is the outcome of its \<^verbatim>\<open>getCredentials\<close>, the same
  at every call.
\<close>

definition scripted :: "outcome \<Rightarrow> outcome \<times> outcome" where
  "scripted p = (p, p)"

definition static_credentials :: credentials where
  "static_credentials =
     \<lparr>awsAccessKeyId = ''AKIDEXAMPLE'', awsSecretKey = ''secret'', sessionToken = None,
      expiresAt = None, region = None\<rparr>"

text \<open>\<^verbatim>\<open>() => new EnvironmentCredentials('AWS')\<close> with the variables unset.\<close>

definition env_unset_factory :: "outcome factory" where
  "env_unset_factory =
     \<lparr>source = ''() => new EnvironmentCredentials('AWS')'',
      call = Inr (Inl (new_Error ''AWS environment variables not set''))\<rparr>"

text \<open>\<^verbatim>\<open>() => new SharedIniFileCredentials()\<close> with a complete default profile.\<close>

definition ini_ok_factory :: "outcome factory" where
  "ini_ok_factory =
     \<lparr>source = ''() => new SharedIniFileCredentials()'', call = Inr (Inr static_credentials)\<rparr>"

text \<open>A factory whose call throws: the metadata client is disabled.\<close>

definition ec2_disabled_factory :: "outcome factory" where
  "ec2_disabled_factory =
     \<lparr>source = ''() => new EC2MetadataCredentials()'',
      call = Inl (new_Error
        ''IMDSv2 client is disabled via environment: AWS_EC2_METADATA_DISABLED=true'')\<rparr>"

text \<open>
  A provider whose promise is rejected with an \<^verbatim>\<open>Error\<close> that has a stack of two lines.
\<close>

definition traced_failure_factory :: "outcome factory" where
  "traced_failure_factory =
     \<lparr>source = ''() => new EcsTaskCredentials()'',
      call = Inr (Inl (JsError
        (Some (''Error: ECS service endpoint returned HTTP 500'' @
               CHR 0x0A # ''    at EcsTaskCredentials.load (credentials.ts:226:37)''))
        ''ECS service endpoint returned HTTP 500''))\<rparr>"

text \<open>A provider whose promise is rejected with the string \<^verbatim>\<open>timeout\<close>.\<close>

definition reject_string_factory :: "outcome factory" where
  "reject_string_factory = \<lparr>source = ''() => custom'', call = Inr (Inl (Truthy ''timeout''))\<rparr>"

text \<open>
  A provider whose promise is rejected with \<^verbatim>\<open>Object.create(null)\<close>: calling
  \<^verbatim>\<open>toString\<close> on it throws a \<^verbatim>\<open>TypeError\<close>.
\<close>

definition reject_bare_object_factory :: "outcome factory" where
  "reject_bare_object_factory =
     \<lparr>source = ''() => custom'',
      call = Inr (Inl (Unprintable (JsError (Some ''TypeError: err.toString is not a function'')
                                      ''err.toString is not a function'')))\<rparr>"

text \<open>A provider whose promise is rejected with \<^verbatim>\<open>undefined\<close>.\<close>

definition reject_undefined_factory :: "outcome factory" where
  "reject_undefined_factory = \<lparr>source = ''() => custom'', call = Inr (Inl Falsy)\<rparr>"

text \<open>A network-backed provider after its first call, made at time 1000: one load pending.\<close>

definition awaiting_first_load :: network_provider where
  "awaiting_first_load = snd (EcsTaskCredentials_getCredentials 1000 initial_provider)"

definition expiring_credentials :: "int \<Rightarrow> credentials" where
  "expiring_credentials t = static_credentials\<lparr>expiresAt := Some (Date t)\<rparr>"

text \<open>A \<^verbatim>\<open>SharedIniFileCredentials\<close> as its constructor leaves it, with inline content.\<close>

definition inline_ini_provider :: SharedIniFileCredentials where
  "inline_ini_provider =
     \<lparr>promise = None, loads = 0, filename = ''tmp://supplied-inline'',
      filedata = Some ''[profile foo]'', profile = ''foo''\<rparr>"

text \<open>\<^verbatim>\<open>Deno.readTextFile\<close> where no file can be read.\<close>

definition no_file :: "string \<Rightarrow> js_value + string" where
  "no_file name = Inl (new_Error (''No such file or directory (os error 2): readfile '' @ name))"

definition complete_section :: ini_section where
  "complete_section =
     \<lparr>aws_access_key_id = Some ''AKIDEXAMPLE'', aws_secret_access_key = Some ''secret'',
      aws_session_token = None, credential_process = None, ini_region = Some ''eu-west-1''\<rparr>"

definition empty_key_section :: ini_section where
  "empty_key_section =
     \<lparr>aws_access_key_id = Some [], aws_secret_access_key = Some ''secret'',
      aws_session_token = None, credential_process = None, ini_region = None\<rparr>"

text \<open>What the parser gives for a file whose one section is \<^verbatim>\<open>[profile foo]\<close>.\<close>

definition parsed_example :: "string \<Rightarrow> (string \<rightharpoonup> ini_section)" where
  "parsed_example text = [''profile foo'' \<mapsto> complete_section]"

text \<open>An environment with no variable set, and one that disables the metadata client.\<close>

definition unset_env :: "string \<Rightarrow> env_read" where
  "unset_env name = Undefined"

definition disabled_env :: "string \<Rightarrow> env_read" where
  "disabled_env name = (if name = ''AWS_EC2_METADATA_DISABLED'' then Str ''true'' else Undefined)"

text \<open>\<^verbatim>\<open>new URL(path, base)\<close> for a base without a path: never throws here.\<close>

definition simple_URL :: "string \<Rightarrow> string \<Rightarrow> js_value + string" where
  "simple_URL p base = Inr (base @ ''/'' @ p)"

text \<open>The client that \<^verbatim>\<open>new IMDSv2\<close> makes when no variable is set.\<close>

definition default_client :: IMDSv2 where
  "default_client =
     \<lparr>baseUrl = ''http://169.254.169.254/latest/'', timeoutMs = 1000, apiTimeoutMs = 5000,
      tokenTtlSeconds = 21600, cachedToken = None\<rparr>"

text \<open>A metadata service that answers every request with the same token.\<close>

definition issue_token :: "raw_request \<Rightarrow> js_value + string" where
  "issue_token request = Inr ''token-1''"

text \<open>
  The delay as the specification words it, \<^verbatim>\<open>max(1000, floor(0.95 * ttlSeconds * 1000))\<close>,
  in exact arithmetic: \<open>0.95\<close> is the fraction \<open>95 / 100\<close>.
\<close>

definition spec_invalidation_delay :: "int \<Rightarrow> int" where
  "spec_invalidation_delay ttlSeconds = max 1000 ((95 * ttlSeconds * 1000) div 100)"

text \<open>The client that \<^verbatim>\<open>new IMDSv2({tokenTtlSeconds: 3})\<close> makes when no variable is set.\<close>

definition short_ttl_client :: IMDSv2 where
  "short_ttl_client = default_client\<lparr>tokenTtlSeconds := 3\<rparr>"

section \<open>The chain: discovery\<close>

lemma catch_block_printable:
  "printable err \<Longrightarrow>
   catch_block f err errors =
     Inr (errors @ (case catch_block f err [] of Inl thrown \<Rightarrow> [] | Inr ls \<Rightarrow> ls))"
  by (cases err) (simp_all add: catch_block_def printable_def)

lemma catch_block_unprintable: "catch_block f (Unprintable thrown) errors = Inl thrown"
  by (simp add: catch_block_def)

lemma attempt_events_Inl: "call f = Inl err \<Longrightarrow> attempt_events f i = [Instantiate i]"
  by (simp add: attempt_events_def)

lemma attempt_events_Inr: "call f = Inr p \<Longrightarrow> attempt_events f i = [Instantiate i, Resolve i]"
  by (simp add: attempt_events_def)

text \<open>
  While the entries fail with failures that can be printed, the loop goes on: it has made
  the calls of each failed entry and pushed what the \<^verbatim>\<open>catch\<close> block pushes for it.
\<close>

lemma discover_failed_prefix:
  "\<forall>f \<in> set pre. provider_fails g f \<and> printable (failure_of g f) \<Longrightarrow>
   discover g (pre @ rest) i errors =
     (case discover g rest (i + length pre) (errors @ concat (map (failure_lines g) pre)) of
        (r, pin, evs) \<Rightarrow>
          (r, pin, concat (map (\<lambda>j. attempt_events (pre ! j) (i + j)) [0..<length pre]) @ evs))"
proof (induction pre arbitrary: i errors)
  case Nil
  then show ?case by (simp split: prod.splits)
next
  case (Cons f pre)
  have fails: "provider_fails g f" and prints: "printable (failure_of g f)"
    and rest: "\<forall>f \<in> set pre. provider_fails g f \<and> printable (failure_of g f)"
    using Cons.prems by simp_all
  have idx: "[0..<Suc (length pre)] = 0 # map Suc [0..<length pre]"
    by (simp add: upt_conv_Cons map_Suc_upt del: upt_Suc)
  show ?case
  proof (cases "call f")
    case (Inl err)
    have err: "failure_of g f = err"
      using Inl by (simp add: failure_of_def)
    have pushed: "catch_block f err errors = Inr (errors @ failure_lines g f)"
      using catch_block_printable [of err f errors] prints
      by (simp add: failure_lines_def err)
    show ?thesis
      using Cons.IH [OF rest, of "Suc i" "errors @ failure_lines g f"] Inl
      by (simp add: idx comp_def pushed attempt_events_Inl split: prod.splits del: upt_Suc)
  next
    case (Inr p)
    with fails obtain err p' where g: "g p = (Inl err, p')"
      by (cases "g p") (auto simp: provider_fails_def isl_def)
    have err: "failure_of g f = err"
      using Inr g by (simp add: failure_of_def)
    have pushed: "catch_block f err errors = Inr (errors @ failure_lines g f)"
      using catch_block_printable [of err f errors] prints
      by (simp add: failure_lines_def err)
    show ?thesis
      using Cons.IH [OF rest, of "Suc i" "errors @ failure_lines g f"] Inr g
      by (simp add: idx comp_def pushed attempt_events_Inr split: prod.splits del: upt_Suc)
  qed
qed

text \<open>
  When the \<^verbatim>\<open>catch\<close> block throws, the loop ends there: the chain rejects with the value
  thrown, sets no supplier, and reaches no later entry.
\<close>

lemma discover_aborts:
  assumes pre: "\<forall>f \<in> set pre. provider_fails g f \<and> printable (failure_of g f)"
    and fails: "provider_fails g f"
    and thrown: "failure_of g f = Unprintable thrown"
  shows "discover g (pre @ f # rest) i errors =
           (Inl thrown, None,
            concat (map (\<lambda>j. attempt_events (pre ! j) (i + j)) [0..<length pre])
              @ attempt_events f (i + length pre))"
proof -
  have "discover g (f # rest) n errs = (Inl thrown, None, attempt_events f n)" for n errs
  proof (cases "call f")
    case (Inl err)
    then have "err = Unprintable thrown"
      using thrown by (simp add: failure_of_def)
    then show ?thesis
      using Inl by (simp add: catch_block_unprintable attempt_events_Inl)
  next
    case (Inr p)
    with fails obtain err p' where g: "g p = (Inl err, p')"
      by (cases "g p") (auto simp: provider_fails_def isl_def)
    then have "err = Unprintable thrown"
      using thrown Inr by (simp add: failure_of_def)
    then show ?thesis
      using Inr g by (simp add: catch_block_unprintable attempt_events_Inr)
  qed
  then show ?thesis
    unfolding discover_failed_prefix [OF pre] by simp
qed

lemma discover_isl:
  assumes "\<And>i. i < length fs \<Longrightarrow> (\<forall>j\<le>i. provider_fails g (fs ! j))
             \<Longrightarrow> printable (failure_of g (fs ! i))"
  shows "isl (fst (discover g fs n errors)) \<longleftrightarrow> (\<forall>f \<in> set fs. provider_fails g f)"
  using assms
proof (induction fs arbitrary: n errors)
  case Nil
  then show ?case by simp
next
  case (Cons f fs)
  show ?case
  proof (cases "provider_fails g f")
    case False
    then obtain p where made: "call f = Inr p" and ok: "\<not> isl (fst (g p))"
      by (cases "call f") (simp_all add: provider_fails_def)
    obtain r p' where gp: "g p = (r, p')"
      by (cases "g p")
    obtain creds where "r = Inr creds"
      using ok gp by (cases r) simp_all
    with gp have "g p = (Inr creds, p')"
      by simp
    then show ?thesis
      using False made by simp
  next
    case True
    have prints: "printable (failure_of g f)"
      using Cons.prems [of 0] True by simp
    have later: "printable (failure_of g (fs ! i))"
      if "i < length fs" and "\<forall>j\<le>i. provider_fails g (fs ! j)" for i
    proof -
      have "provider_fails g ((f # fs) ! j)" if "j \<le> Suc i" for j
        using that True \<open>\<forall>j\<le>i. provider_fails g (fs ! j)\<close> by (cases j) simp_all
      then show ?thesis
        using Cons.prems [of "Suc i"] \<open>i < length fs\<close> by simp
    qed
    have ih: "isl (fst (discover g fs (Suc n) errs)) \<longleftrightarrow> (\<forall>f \<in> set fs. provider_fails g f)"
      for errs
      by (rule Cons.IH) (rule later)
    show ?thesis
    proof (cases "call f")
      case (Inl err)
      have "failure_of g f = err"
        using Inl by (simp add: failure_of_def)
      then have "catch_block f err errors = Inr (errors @ failure_lines g f)"
        using catch_block_printable [of err f errors] prints by (simp add: failure_lines_def)
      then show ?thesis
        using Inl True ih [of "errors @ failure_lines g f"] by (simp add: split_beta)
    next
      case (Inr p)
      with True obtain err p' where g: "g p = (Inl err, p')"
        by (cases "g p") (auto simp: provider_fails_def isl_def)
      have "failure_of g f = err"
        using Inr g by (simp add: failure_of_def)
      then have "catch_block f err errors = Inr (errors @ failure_lines g f)"
        using catch_block_printable [of err f errors] prints by (simp add: failure_lines_def)
      then show ?thesis
        using Inr g True ih [of "errors @ failure_lines g f"] by (simp add: split_beta)
    qed
  qed
qed

text \<open>\<^verbatim>\<open>join('\n')\<close> puts one line feed before every line but the first.\<close>

lemma join_lines_Cons: "join_lines (l # ls) = l @ concat (map (\<lambda>x. CHR 0x0A # x) ls)"
  by (induction ls arbitrary: l) (simp_all add: newline_def)

lemma failure_lines_printable:
  "printable (failure_of g f) \<Longrightarrow>
   failure_lines g f =
     (if failure_of g f = Falsy then []
      else [''    - '' @ (if take 10 (source f) = ''() => new '' then drop 10 (source f) else source f)
              @ '' '' @
              (case failure_of g f of
                 JsError st m \<Rightarrow>
                   (case st of
                      None \<Rightarrow> m
                    | Some s \<Rightarrow> if takeWhile (\<lambda>c. c \<noteq> CHR 0x0A) s = [] then m
                                else takeWhile (\<lambda>c. c \<noteq> CHR 0x0A) s)
               | Truthy t \<Rightarrow> t
               | _ \<Rightarrow> [])])"
  by (cases "failure_of g f")
    (simp_all add: failure_lines_def catch_block_def printable_def srcName_def providerLabel_def
      error_summary_def first_line_def newline_def split: option.splits)

lemma concat_failure_lines:
  "\<forall>f \<in> set fs. printable (failure_of g f) \<Longrightarrow>
   concat (map (\<lambda>x. CHR 0x0A # x) (concat (map (failure_lines g) fs))) =
     concat (map (\<lambda>f. CHR 0x0A # ''    - ''
                   @ (if take 10 (source f) = ''() => new '' then drop 10 (source f) else source f)
                   @ '' '' @
                   (case failure_of g f of
                      JsError st m \<Rightarrow>
                        (case st of
                           None \<Rightarrow> m
                         | Some s \<Rightarrow> if takeWhile (\<lambda>c. c \<noteq> CHR 0x0A) s = [] then m
                                     else takeWhile (\<lambda>c. c \<noteq> CHR 0x0A) s)
                    | Truthy t \<Rightarrow> t
                    | _ \<Rightarrow> []))
             (filter (\<lambda>f. failure_of g f \<noteq> Falsy) fs))"
  by (induction fs) (simp_all add: failure_lines_printable)

text \<open>
  Claim C1, as amended. Let entry \<open>k\<close> of the chain (counted from 0) be the first that
  succeeds: every entry before it fails, either because its factory throws or because the
  provider it makes rejects, and with a failure that the \<^verbatim>\<open>catch\<close> block can print. Then
  the first \<^verbatim>\<open>getCredentials\<close> of the chain calls the factories \<open>0..k\<close> once each, in
  order, and calls \<^verbatim>\<open>getCredentials\<close> once on each provider that was made, right after
  making it; a factory that throws leaves no provider to call (when no factory throws,
  every provider \<open>0..k\<close> is made and called once). Entry \<open>k\<close> itself is made and called.
  The chain returns its credentials, sets \<^verbatim>\<open>#supplier\<close> to it, and reaches no later
  entry. Every call made once \<^verbatim>\<open>#supplier\<close> is set, that is, after the first call has
  returned, is one call of the supplier, whose result it returns; the supplier stays.
\<close>

theorem chain_pins_first_success:
  assumes k: "k < length fs"
    and before: "\<forall>j<k. provider_fails getCreds (fs ! j)
                   \<and> printable (failure_of getCreds (fs ! j))"
    and made: "call (fs ! k) = Inr p"
    and ok: "getCreds p = (Inr creds, p')"
  shows "CredentialsProviderChain_getCredentials getCreds \<lparr>chain = fs, supplier = None\<rparr> =
           (Inr creds, \<lparr>chain = fs, supplier = Some p'\<rparr>,
            concat (map (\<lambda>j. attempt_events (fs ! j) j) [0..<Suc k]))
         \<and> attempt_events (fs ! k) k = [Instantiate k, Resolve k]
         \<and> ((\<forall>j\<le>k. \<not> isl (call (fs ! j))) \<longrightarrow>
               concat (map (\<lambda>j. attempt_events (fs ! j) j) [0..<Suc k]) =
               concat (map (\<lambda>j. [Instantiate j, Resolve j]) [0..<Suc k]))
         \<and> (\<forall>q. CredentialsProviderChain_getCredentials getCreds \<lparr>chain = fs, supplier = Some q\<rparr> =
                  (fst (getCreds q), \<lparr>chain = fs, supplier = Some (snd (getCreds q))\<rparr>, [Delegate]))"
proof -
  define pre where "pre = take k fs"
  define rest where "rest = drop (Suc k) fs"
  define f where "f = fs ! k"
  have split: "fs = pre @ f # rest"
    using k by (simp add: pre_def rest_def f_def id_take_nth_drop)
  have len: "length pre = k"
    using k by (simp add: pre_def)
  have pre_fail: "\<forall>f \<in> set pre. provider_fails getCreds f \<and> printable (failure_of getCreds f)"
    using before k by (auto simp: pre_def in_set_conv_nth)
  have evs: "map (\<lambda>j. attempt_events (pre ! j) (0 + j)) [0..<length pre]
               = map (\<lambda>j. attempt_events (fs ! j) j) [0..<k]"
    unfolding len by (rule map_cong) (simp_all add: pre_def)
  have made': "call f = Inr p"
    using made by (simp add: f_def)
  have tail: "discover getCreds (f # rest) (0 + length pre) ([] @ concat (map (failure_lines getCreds) pre))
                = (Inr creds, Some p', [Instantiate k, Resolve k])"
    unfolding len using made' ok by simp
  have "discover getCreds (pre @ f # rest) 0 [] =
          (Inr creds, Some p', concat (map (\<lambda>j. attempt_events (fs ! j) j) [0..<k])
             @ [Instantiate k, Resolve k])"
    unfolding discover_failed_prefix [OF pre_fail] tail evs by simp
  then have "discover getCreds fs 0 [] =
          (Inr creds, Some p', concat (map (\<lambda>j. attempt_events (fs ! j) j) [0..<Suc k]))"
    unfolding split [symmetric] by (simp add: attempt_events_Inr [OF made])
  then have first: "CredentialsProviderChain_getCredentials getCreds \<lparr>chain = fs, supplier = None\<rparr> =
           (Inr creds, \<lparr>chain = fs, supplier = Some p'\<rparr>,
            concat (map (\<lambda>j. attempt_events (fs ! j) j) [0..<Suc k]))"
    by (simp add: CredentialsProviderChain_getCredentials_def)
  have later: "\<forall>q. CredentialsProviderChain_getCredentials getCreds \<lparr>chain = fs, supplier = Some q\<rparr> =
                  (fst (getCreds q), \<lparr>chain = fs, supplier = Some (snd (getCreds q))\<rparr>, [Delegate])"
    by (simp add: CredentialsProviderChain_getCredentials_def split: prod.splits)
  have all_made: "concat (map (\<lambda>j. attempt_events (fs ! j) j) [0..<Suc k]) =
               concat (map (\<lambda>j. [Instantiate j, Resolve j]) [0..<Suc k])"
    if "\<forall>j\<le>k. \<not> isl (call (fs ! j))"
  proof -
    have "map (\<lambda>j. attempt_events (fs ! j) j) [0..<Suc k] =
          map (\<lambda>j. [Instantiate j, Resolve j]) [0..<Suc k]"
      by (rule map_cong) (use that in \<open>auto simp: attempt_events_def\<close>)
    then show ?thesis by (rule arg_cong)
  qed
  show ?thesis
    using first later all_made attempt_events_Inr [OF made] by blast
qed

text \<open>
  The theorem at a chain of three: the metadata client is disabled (its factory throws),
  the environment is unset (the provider rejects), the shared file has the profile.
\<close>

theorem chain_pins_first_success_witness:
  "CredentialsProviderChain_getCredentials scripted
     \<lparr>chain = [ec2_disabled_factory, env_unset_factory, ini_ok_factory], supplier = None\<rparr> =
     (Inr static_credentials,
      \<lparr>chain = [ec2_disabled_factory, env_unset_factory, ini_ok_factory],
       supplier = Some (Inr static_credentials)\<rparr>,
      [Instantiate 0, Instantiate 1, Resolve 1, Instantiate 2, Resolve 2])
   \<and> CredentialsProviderChain_getCredentials scripted
       \<lparr>chain = [ec2_disabled_factory, env_unset_factory, ini_ok_factory],
        supplier = Some (Inr static_credentials)\<rparr> =
       (Inr static_credentials,
        \<lparr>chain = [ec2_disabled_factory, env_unset_factory, ini_ok_factory],
         supplier = Some (Inr static_credentials)\<rparr>,
        [Delegate])"
proof -
  have k: "2 < length [ec2_disabled_factory, env_unset_factory, ini_ok_factory]"
    by simp
  have before: "\<forall>j<2. provider_fails scripted
                  ([ec2_disabled_factory, env_unset_factory, ini_ok_factory] ! j)
                \<and> printable (failure_of scripted
                  ([ec2_disabled_factory, env_unset_factory, ini_ok_factory] ! j))"
    by (simp add: less_Suc_eq numeral_2_eq_2 provider_fails_def failure_of_def printable_def
        new_Error_def scripted_def ec2_disabled_factory_def env_unset_factory_def)
  have made: "call ([ec2_disabled_factory, env_unset_factory, ini_ok_factory] ! 2)
                = Inr (Inr static_credentials)"
    by (simp add: ini_ok_factory_def)
  have ok: "scripted (Inr static_credentials) = (Inr static_credentials, Inr static_credentials)"
    by (simp add: scripted_def)
  have evs: "concat (map (\<lambda>j. attempt_events
                 ([ec2_disabled_factory, env_unset_factory, ini_ok_factory] ! j) j) [0..<Suc 2])
               = [Instantiate 0, Instantiate 1, Resolve 1, Instantiate 2, Resolve 2]"
  proof -
    have "[0..<Suc 2] = [0, 1, 2]"
      by (simp add: upt_rec)
    then show ?thesis
      by (simp add: attempt_events_def ec2_disabled_factory_def env_unset_factory_def
          ini_ok_factory_def)
  qed
  have later: "fst (scripted (Inr static_credentials)) = Inr static_credentials"
    "snd (scripted (Inr static_credentials)) = Inr static_credentials"
    by (simp_all add: ok)
  note inst = chain_pins_first_success [OF k before made ok]
  show ?thesis
    using inst [THEN conjunct1]
      inst [THEN conjunct2, THEN conjunct2, THEN conjunct2, THEN spec, of "Inr static_credentials"]
    unfolding evs later by (rule conjI)
qed

text \<open>
  Claim C1 as stated fails. In this chain of two, the second provider is the first whose
  \<^verbatim>\<open>getCredentials\<close> succeeds, so the claim has both providers instantiated and invoked
  once. The first factory throws, the chain records the failure and goes on: no
  \<^verbatim>\<open>getCredentials\<close> is ever called for entry 0.
\<close>

theorem chain_skips_throwing_factory:
  "CredentialsProviderChain_getCredentials scripted
     \<lparr>chain = [ec2_disabled_factory, ini_ok_factory], supplier = None\<rparr> =
     (Inr static_credentials,
      \<lparr>chain = [ec2_disabled_factory, ini_ok_factory], supplier = Some (Inr static_credentials)\<rparr>,
      [Instantiate 0, Instantiate 1, Resolve 1])
   \<and> count_list [Instantiate 0, Instantiate 1, Resolve 1] (Resolve 0) = 0"
  by (simp add: CredentialsProviderChain_getCredentials_def scripted_def
      ec2_disabled_factory_def ini_ok_factory_def catch_block_def new_Error_def)

text \<open>
  The other way the chain leaves the path of claims C1 and C2. The first provider rejects
  with \<^verbatim>\<open>Object.create(null)\<close>; the \<^verbatim>\<open>catch\<close> block calls \<^verbatim>\<open>toString\<close> on it, which
  throws. The chain rejects with that \<^verbatim>\<open>TypeError\<close>, not with the aggregate error, and
  the second provider, which would succeed, is never reached.
\<close>

lemma chain_aborts_when_printing_throws:
  "CredentialsProviderChain_getCredentials scripted
     \<lparr>chain = [reject_bare_object_factory, ini_ok_factory], supplier = None\<rparr> =
     (Inl (JsError (Some ''TypeError: err.toString is not a function'')
             ''err.toString is not a function''),
      \<lparr>chain = [reject_bare_object_factory, ini_ok_factory], supplier = None\<rparr>,
      [Instantiate 0, Resolve 0])"
  by (simp add: CredentialsProviderChain_getCredentials_def scripted_def
      reject_bare_object_factory_def catch_block_def)

text \<open>
  Claim C2, as amended. Let every failure that discovery reaches be one the \<^verbatim>\<open>catch\<close>
  block can print (entry \<open>i\<close> is reached as a failure when it and all entries before it
  fail). Then a call of the chain with no supplier set fails if and only if every entry
  fails, and then it fails with the aggregate error: an \<^verbatim>\<open>Error\<close> whose message is the
  heading followed, for each provider in order whose failure is an \<^verbatim>\<open>Error\<close> or another
  truthy value, by a line feed and the entry of that provider: four spaces, a dash, a
  space, the label of the factory (its source text without a leading \<^verbatim>\<open>() => new\<close>), a
  space, and the reason. The reason of an \<^verbatim>\<open>Error\<close> is the first line of its stack, or
  its message when that line is empty or the stack is absent; the reason of another truthy
  value is its text. A failure with a falsy value adds no entry. The supplier stays unset.
  (A failure that cannot be printed ends discovery with the error thrown while printing:
  lemma \<open>discover_aborts\<close>.)
\<close>

theorem chain_aggregate_failure:
  assumes printed: "\<forall>i<length fs. (\<forall>j\<le>i. provider_fails getCreds (fs ! j))
                      \<longrightarrow> printable (failure_of getCreds (fs ! i))"
  shows
   "(isl (fst (CredentialsProviderChain_getCredentials getCreds \<lparr>chain = fs, supplier = None\<rparr>))
      \<longleftrightarrow> (\<forall>f \<in> set fs. provider_fails getCreds f))
    \<and> ((\<forall>f \<in> set fs. provider_fails getCreds f) \<longrightarrow>
        (let reason = (\<lambda>err. case err of
                          JsError st m \<Rightarrow>
                            (case st of
                               None \<Rightarrow> m
                             | Some s \<Rightarrow> if takeWhile (\<lambda>c. c \<noteq> CHR 0x0A) s = [] then m
                                         else takeWhile (\<lambda>c. c \<noteq> CHR 0x0A) s)
                        | Truthy t \<Rightarrow> t
                        | _ \<Rightarrow> []);
             label = (\<lambda>src. if take 10 src = ''() => new '' then drop 10 src else src);
             msg = ''Failed to load any possible AWS credentials:'' @
                   concat (map (\<lambda>f. CHR 0x0A # ''    - '' @ label (source f) @ '' ''
                                       @ reason (failure_of getCreds f))
                             (filter (\<lambda>f. failure_of getCreds f \<noteq> Falsy) fs))
         in CredentialsProviderChain_getCredentials getCreds \<lparr>chain = fs, supplier = None\<rparr> =
              (Inl (JsError (Some (''Error: '' @ msg)) msg),
               \<lparr>chain = fs, supplier = None\<rparr>,
               concat (map (\<lambda>j. attempt_events (fs ! j) j) [0..<length fs]))))"
proof -
  have iff: "isl (fst (CredentialsProviderChain_getCredentials getCreds \<lparr>chain = fs, supplier = None\<rparr>))
      \<longleftrightarrow> (\<forall>f \<in> set fs. provider_fails getCreds f)"
    using discover_isl [of fs getCreds 0 "[]"] printed
    by (simp add: CredentialsProviderChain_getCredentials_def split_beta)
  have all: "CredentialsProviderChain_getCredentials getCreds \<lparr>chain = fs, supplier = None\<rparr> =
          (Inl (aggregate_error (concat (map (failure_lines getCreds) fs))),
           \<lparr>chain = fs, supplier = None\<rparr>,
           concat (map (\<lambda>j. attempt_events (fs ! j) j) [0..<length fs]))"
    and prints: "\<forall>f \<in> set fs. printable (failure_of getCreds f)"
    if fails: "\<forall>f \<in> set fs. provider_fails getCreds f"
  proof -
    show prints: "\<forall>f \<in> set fs. printable (failure_of getCreds f)"
    proof
      fix f assume "f \<in> set fs"
      then obtain i where i: "i < length fs" "fs ! i = f"
        by (auto simp: in_set_conv_nth)
      have "\<forall>j\<le>i. provider_fails getCreds (fs ! j)"
        using fails i(1) by simp
      then show "printable (failure_of getCreds f)"
        using printed i by blast
    qed
    have both: "\<forall>f \<in> set fs. provider_fails getCreds f \<and> printable (failure_of getCreds f)"
      using fails prints by blast
    show "CredentialsProviderChain_getCredentials getCreds \<lparr>chain = fs, supplier = None\<rparr> =
          (Inl (aggregate_error (concat (map (failure_lines getCreds) fs))),
           \<lparr>chain = fs, supplier = None\<rparr>,
           concat (map (\<lambda>j. attempt_events (fs ! j) j) [0..<length fs]))"
      using discover_failed_prefix [OF both, of "[]" 0 "[]"]
      by (simp add: CredentialsProviderChain_getCredentials_def)
  qed
  have msg: "aggregate_error (concat (map (failure_lines getCreds) fs)) =
      JsError (Some (''Error: '' @ ''Failed to load any possible AWS credentials:'' @
                 concat (map (\<lambda>x. CHR 0x0A # x) (concat (map (failure_lines getCreds) fs)))))
              (''Failed to load any possible AWS credentials:'' @
                 concat (map (\<lambda>x. CHR 0x0A # x) (concat (map (failure_lines getCreds) fs))))"
    by (simp add: aggregate_error_def new_Error_def join_lines_Cons)
  show ?thesis
  proof (intro conjI impI)
    show "isl (fst (CredentialsProviderChain_getCredentials getCreds \<lparr>chain = fs, supplier = None\<rparr>))
      \<longleftrightarrow> (\<forall>f \<in> set fs. provider_fails getCreds f)"
      by (rule iff)
  next
    assume fails: "\<forall>f \<in> set fs. provider_fails getCreds f"
    show "let reason = (\<lambda>err. case err of
                          JsError st m \<Rightarrow>
                            (case st of
                               None \<Rightarrow> m
                             | Some s \<Rightarrow> if takeWhile (\<lambda>c. c \<noteq> CHR 0x0A) s = [] then m
                                         else takeWhile (\<lambda>c. c \<noteq> CHR 0x0A) s)
                        | Truthy t \<Rightarrow> t
                        | _ \<Rightarrow> []);
             label = (\<lambda>src. if take 10 src = ''() => new '' then drop 10 src else src);
             msg = ''Failed to load any possible AWS credentials:'' @
                   concat (map (\<lambda>f. CHR 0x0A # ''    - '' @ label (source f) @ '' ''
                                       @ reason (failure_of getCreds f))
                             (filter (\<lambda>f. failure_of getCreds f \<noteq> Falsy) fs))
         in CredentialsProviderChain_getCredentials getCreds \<lparr>chain = fs, supplier = None\<rparr> =
              (Inl (JsError (Some (''Error: '' @ msg)) msg),
               \<lparr>chain = fs, supplier = None\<rparr>,
               concat (map (\<lambda>j. attempt_events (fs ! j) j) [0..<length fs]))"
      unfolding Let_def all [OF fails] msg concat_failure_lines [OF prints [OF fails]]
      by simp
  qed
qed

text \<open>
  The theorem at a chain of five that all fail: an \<^verbatim>\<open>Error\<close> with a one-line stack, an
  \<^verbatim>\<open>Error\<close> with a stack of two lines, a string, \<^verbatim>\<open>undefined\<close>, and a factory that throws.
  The message has the heading and four entries, each on a line of its own; the provider
  that rejected with \<^verbatim>\<open>undefined\<close> has none.
\<close>

theorem chain_aggregate_failure_witness:
  "isl (fst (CredentialsProviderChain_getCredentials scripted
               \<lparr>chain = [env_unset_factory, traced_failure_factory, reject_string_factory,
                         reject_undefined_factory, ec2_disabled_factory],
                supplier = None\<rparr>))
   \<and> CredentialsProviderChain_getCredentials scripted
        \<lparr>chain = [env_unset_factory, traced_failure_factory, reject_string_factory,
                  reject_undefined_factory, ec2_disabled_factory],
         supplier = None\<rparr> =
        (Inl (JsError
           (Some (''Error: Failed to load any possible AWS credentials:'' @
              CHR 0x0A # ''    - EnvironmentCredentials('AWS') Error: AWS environment variables not set'' @
              CHR 0x0A # ''    - EcsTaskCredentials() Error: ECS service endpoint returned HTTP 500'' @
              CHR 0x0A # ''    - () => custom timeout'' @
              CHR 0x0A # ''    - EC2MetadataCredentials() Error: IMDSv2 client is disabled via environment: AWS_EC2_METADATA_DISABLED=true''))
           (''Failed to load any possible AWS credentials:'' @
              CHR 0x0A # ''    - EnvironmentCredentials('AWS') Error: AWS environment variables not set'' @
              CHR 0x0A # ''    - EcsTaskCredentials() Error: ECS service endpoint returned HTTP 500'' @
              CHR 0x0A # ''    - () => custom timeout'' @
              CHR 0x0A # ''    - EC2MetadataCredentials() Error: IMDSv2 client is disabled via environment: AWS_EC2_METADATA_DISABLED=true'')),
         \<lparr>chain = [env_unset_factory, traced_failure_factory, reject_string_factory,
                   reject_undefined_factory, ec2_disabled_factory],
          supplier = None\<rparr>,
         [Instantiate 0, Resolve 0, Instantiate 1, Resolve 1, Instantiate 2, Resolve 2,
          Instantiate 3, Resolve 3, Instantiate 4])"
proof -
  let ?fs = "[env_unset_factory, traced_failure_factory, reject_string_factory,
              reject_undefined_factory, ec2_disabled_factory]"
  have failures:
    "failure_of scripted env_unset_factory =
       JsError (Some ''Error: AWS environment variables not set'') ''AWS environment variables not set''"
    "failure_of scripted traced_failure_factory =
       JsError (Some (''Error: ECS service endpoint returned HTTP 500'' @
                 CHR 0x0A # ''    at EcsTaskCredentials.load (credentials.ts:226:37)''))
         ''ECS service endpoint returned HTTP 500''"
    "failure_of scripted reject_string_factory = Truthy ''timeout''"
    "failure_of scripted reject_undefined_factory = Falsy"
    "failure_of scripted ec2_disabled_factory =
       JsError (Some ''Error: IMDSv2 client is disabled via environment: AWS_EC2_METADATA_DISABLED=true'')
         ''IMDSv2 client is disabled via environment: AWS_EC2_METADATA_DISABLED=true''"
    by (simp_all add: failure_of_def scripted_def new_Error_def env_unset_factory_def
        traced_failure_factory_def reject_string_factory_def reject_undefined_factory_def
        ec2_disabled_factory_def)
  have fails: "\<forall>f \<in> set ?fs. provider_fails scripted f"
    by (simp add: provider_fails_def scripted_def env_unset_factory_def
        traced_failure_factory_def reject_string_factory_def reject_undefined_factory_def
        ec2_disabled_factory_def)
  have prints: "\<forall>f \<in> set ?fs. printable (failure_of scripted f)"
    by (simp add: failures printable_def)
  have printed: "\<forall>i<length ?fs. (\<forall>j\<le>i. provider_fails scripted (?fs ! j))
                      \<longrightarrow> printable (failure_of scripted (?fs ! i))"
    using prints by (metis nth_mem)
  have sources:
    "source env_unset_factory = ''() => new EnvironmentCredentials('AWS')''"
    "source traced_failure_factory = ''() => new EcsTaskCredentials()''"
    "source reject_string_factory = ''() => custom''"
    "source ec2_disabled_factory = ''() => new EC2MetadataCredentials()''"
    by (simp_all add: env_unset_factory_def traced_failure_factory_def reject_string_factory_def
        ec2_disabled_factory_def)
  have evs: "concat (map (\<lambda>j. attempt_events (?fs ! j) j) [0..<length ?fs]) =
             [Instantiate 0, Resolve 0, Instantiate 1, Resolve 1, Instantiate 2, Resolve 2,
              Instantiate 3, Resolve 3, Instantiate 4]"
  proof -
    have "[0..<length ?fs] = [0, 1, 2, 3, 4]"
      by (simp add: upt_rec)
    then show ?thesis
      by (simp add: attempt_events_def env_unset_factory_def traced_failure_factory_def
          reject_string_factory_def reject_undefined_factory_def ec2_disabled_factory_def)
  qed
  note inst = chain_aggregate_failure [of ?fs scripted, OF printed]
  have a: "isl (fst (CredentialsProviderChain_getCredentials scripted \<lparr>chain = ?fs, supplier = None\<rparr>))"
    using inst [THEN conjunct1] fails by blast
  show ?thesis
    using a inst [THEN conjunct2, THEN mp, OF fails]
    unfolding evs Let_def
    by (simp add: failures sources)
qed

text \<open>
  Claim C2 as stated fails. The one provider of this chain rejects with \<^verbatim>\<open>undefined\<close>.
  It was attempted and it failed, yet the message of the aggregate error is the heading
  alone: the \<^verbatim>\<open>catch\<close> block pushes a line only for an \<^verbatim>\<open>Error\<close> or a truthy value.
\<close>

theorem chain_drops_falsy_failure:
  "CredentialsProviderChain_getCredentials scripted
     \<lparr>chain = [reject_undefined_factory], supplier = None\<rparr> =
     (Inl (new_Error ''Failed to load any possible AWS credentials:''),
      \<lparr>chain = [reject_undefined_factory], supplier = None\<rparr>,
      [Instantiate 0, Resolve 0])"
  by (simp add: CredentialsProviderChain_getCredentials_def scripted_def
      reject_undefined_factory_def catch_block_def aggregate_error_def)

section \<open>Network-backed providers: the cache slot\<close>

lemma getCredentials_cached:
  "promise self = Some pid \<Longrightarrow> (\<And>e. expireAfter self = Some e \<Longrightarrow> \<not> e < now) \<Longrightarrow>
   EcsTaskCredentials_getCredentials now self = (pid, self)"
  by (cases "expireAfter self") (simp_all add: EcsTaskCredentials_getCredentials_def)

lemma getCredentials_expired:
  "expireAfter self = Some e \<Longrightarrow> e < now \<Longrightarrow>
   EcsTaskCredentials_getCredentials now self =
     (loads self, self\<lparr>expireAfter := None, promise := Some (loads self), loads := Suc (loads self)\<rparr>)"
  by (simp add: EcsTaskCredentials_getCredentials_def)

lemma getCredentials_no_watermark:
  "promise self = Some pid \<Longrightarrow> expireAfter self = None \<Longrightarrow>
   EcsTaskCredentials_getCredentials now self = (pid, self)"
  by (simp add: EcsTaskCredentials_getCredentials_def)

lemma settle_fields:
  "promise (settle pid out now self) = promise self"
  "loads (settle pid out now self) = loads self"
  "settled (settle pid out now self) = (settled self)(pid \<mapsto> out)"
  by (simp_all add: settle_def on_fulfilled_def on_rejected_def
      split: sum.splits option.splits date.splits)

lemma settle_rejected_expireAfter:
  "expireAfter (settle pid (Inl err) now self) = Some (now + 30000)"
  by (simp add: settle_def on_rejected_def)

lemma settle_fulfilled_expireAfter:
  "expireAfter (settle pid (Inr x) now self) =
     (case expiresAt x of
        Some (Date t) \<Rightarrow> if now < t then Some (t - 60000) else expireAfter self
      | _ \<Rightarrow> expireAfter self)"
  by (simp add: settle_def on_fulfilled_def split: option.splits date.splits)

text \<open>A call either returns the promise held, or starts a load and holds its promise.\<close>

lemma getCredentials_cases:
  "snd (EcsTaskCredentials_getCredentials now self) = self \<and> promise self \<noteq> None
   \<or> ((\<exists>e. expireAfter self = Some e \<and> e < now) \<or> promise self = None \<and> expireAfter self = None) \<and>
     snd (EcsTaskCredentials_getCredentials now self) =
       self\<lparr>expireAfter := None, promise := Some (loads self), loads := Suc (loads self)\<rparr>
   \<or> promise self = None \<and> expireAfter self \<noteq> None \<and>
     snd (EcsTaskCredentials_getCredentials now self) =
       self\<lparr>promise := Some (loads self), loads := Suc (loads self)\<rparr>"
proof (cases "expireAfter self")
  case None
  then show ?thesis
    by (cases "promise self") (simp_all add: EcsTaskCredentials_getCredentials_def)
next
  case (Some e)
  show ?thesis
  proof (cases "e < now")
    case True
    with Some show ?thesis by (simp add: EcsTaskCredentials_getCredentials_def)
  next
    case False
    with Some show ?thesis
      by (cases "promise self") (simp_all add: EcsTaskCredentials_getCredentials_def)
  qed
qed

lemma slot_ok_fresh:
  assumes "slot_ok self" "expireAfter self \<noteq> None \<or> promise self = None"
  shows "slot_ok (self\<lparr>expireAfter := None, promise := Some (loads self), loads := Suc (loads self)\<rparr>)"
proof -
  have "\<forall>pid < loads self. settled self pid \<noteq> None"
    using assms unfolding slot_ok_def by (metis option.distinct(1))
  then show ?thesis
    unfolding slot_ok_def by (simp add: less_Suc_eq)
qed

lemma slot_ok_settle:
  assumes "slot_ok self" "pid < loads self" "settled self pid = None"
  shows "slot_ok (settle pid out now self)"
proof -
  have cur: "promise self = Some pid"
    using assms unfolding slot_ok_def by blast
  have others: "\<forall>q < loads self. q \<noteq> pid \<longrightarrow> settled self q \<noteq> None"
    using assms cur unfolding slot_ok_def by (metis option.inject)
  show ?thesis
    unfolding slot_ok_def settle_fields using others cur assms(2) by auto
qed

lemma reachable_slot_ok: "reachable self \<Longrightarrow> slot_ok self"
proof (induction rule: reachable.induct)
  case constructed
  then show ?case by (simp add: slot_ok_def initial_provider_def)
next
  case (called self now)
  have "slot_ok self \<Longrightarrow> promise self = None \<Longrightarrow> expireAfter self = None"
    unfolding slot_ok_def by blast
  then show ?case
    using getCredentials_cases [of now self] called.IH slot_ok_fresh [of self]
    by auto
next
  case (settles self pid out now)
  then show ?case by (simp add: slot_ok_settle)
qed

text \<open>While a load is pending there is no watermark: nothing can discard its promise.\<close>

lemma pending_no_watermark:
  assumes r: "reachable self" and cur: "promise self = Some pid" and pend: "settled self pid = None"
  shows "expireAfter self = None"
proof -
  have ok: "slot_ok self" by (rule reachable_slot_ok [OF r])
  have "pid < loads self" using ok cur unfolding slot_ok_def by blast
  then show ?thesis using ok pend unfolding slot_ok_def by blast
qed

lemma calls_cached:
  "promise self = Some pid \<Longrightarrow> expireAfter self = None \<Longrightarrow>
   EcsTaskCredentials_calls nows self = (replicate (length nows) pid, self)"
  by (induction nows) (simp_all add: getCredentials_no_watermark)

lemma calls_first:
  assumes "nows \<noteq> []"
  shows "EcsTaskCredentials_calls nows initial_provider =
          (replicate (length nows) 0, initial_provider\<lparr>promise := Some 0, loads := 1\<rparr>)"
proof (cases nows)
  case Nil
  with assms show ?thesis by simp
next
  case (Cons now rest)
  have one: "EcsTaskCredentials_getCredentials now initial_provider =
               (0, initial_provider\<lparr>promise := Some 0, loads := 1\<rparr>)"
    by (simp add: EcsTaskCredentials_getCredentials_def initial_provider_def)
  have "EcsTaskCredentials_calls rest (initial_provider\<lparr>promise := Some 0, loads := 1\<rparr>) =
          (replicate (length rest) 0, initial_provider\<lparr>promise := Some 0, loads := 1\<rparr>)"
    by (rule calls_cached) (simp_all add: initial_provider_def)
  with one Cons show ?thesis by simp
qed

lemma outstanding_le_one:
  assumes "reachable self"
  shows "finite (outstanding self) \<and> card (outstanding self) \<le> 1"
proof -
  have ok: "slot_ok self" by (rule reachable_slot_ok [OF assms])
  have "promise self = Some pid" if "pid \<in> outstanding self" for pid
    using ok that unfolding slot_ok_def outstanding_def by blast
  then have sub: "outstanding self \<subseteq> (case promise self of None \<Rightarrow> {} | Some p \<Rightarrow> {p})"
    by (cases "promise self") auto
  have fin: "finite (case promise self of None \<Rightarrow> {} | Some p \<Rightarrow> {p})"
    by (simp split: option.splits)
  have "card (outstanding self) \<le> card (case promise self of None \<Rightarrow> {} | Some p \<Rightarrow> {p})"
    by (rule card_mono [OF fin sub])
  also have "\<dots> \<le> 1" by (simp split: option.splits)
  finally show ?thesis using finite_subset [OF sub fin] by simp
qed

lemma memo_calls_cached:
  "promise self = Some p \<Longrightarrow> SharedIniFileCredentials_calls n self = (replicate n p, self)"
  by (induction n) (simp_all add: SharedIniFileCredentials_getCredentials_def)

lemma memo_calls_first:
  "promise self = None \<Longrightarrow> 0 < n \<Longrightarrow>
   SharedIniFileCredentials_calls n self =
     (replicate n (loads self), self\<lparr>promise := Some (loads self), loads := Suc (loads self)\<rparr>)"
  by (cases n) (simp_all add: SharedIniFileCredentials_getCredentials_def memo_calls_cached)

lemma awaiting_first_load_eq:
  "awaiting_first_load =
     \<lparr>promise = Some 0, loads = 1, expireAfter = None, settled = (\<lambda>pid. None)\<rparr>"
  by (simp add: awaiting_first_load_def EcsTaskCredentials_getCredentials_def initial_provider_def)

lemma reachable_awaiting_first_load: "reachable awaiting_first_load"
  unfolding awaiting_first_load_def by (rule reachable.called [OF reachable.constructed])

text \<open>
  Claim C4, as amended. Let the load of a network-backed provider settle at time \<open>ts\<close>
  with a credential whose \<^verbatim>\<open>expiresAt\<close> is \<open>T\<close>, and let \<open>T\<close> be strictly later than
  \<open>ts\<close>. Then the credential is cached with the watermark \<open>T - 60000\<close> ms. A call at any
  time strictly before the watermark (and at the watermark itself) returns the cached
  promise and starts no load; a call at any time strictly after it clears the slot, starts
  a fresh load and returns the new promise.
\<close>

theorem watermark_before_expiry:
  assumes cur: "promise self = Some pid"
    and exp: "expiresAt x = Some (Date T)"
    and future: "ts < T"
  shows "settled (settle pid (Inr x) ts self) pid = Some (Inr x)
    \<and> expireAfter (settle pid (Inr x) ts self) = Some (T - 60000)
    \<and> (\<forall>now. now \<le> T - 60000 \<longrightarrow>
          EcsTaskCredentials_getCredentials now (settle pid (Inr x) ts self) =
            (pid, settle pid (Inr x) ts self))
    \<and> (\<forall>now. T - 60000 < now \<longrightarrow>
          EcsTaskCredentials_getCredentials now (settle pid (Inr x) ts self) =
            (loads self,
             (settle pid (Inr x) ts self)
               \<lparr>expireAfter := None, promise := Some (loads self), loads := Suc (loads self)\<rparr>))"
proof -
  let ?s = "settle pid (Inr x) ts self"
  have w: "expireAfter ?s = Some (T - 60000)"
    using exp future by (simp add: settle_fulfilled_expireAfter)
  have p: "promise ?s = Some pid" and l: "loads ?s = loads self"
    using cur by (simp_all add: settle_fields)
  have hit: "EcsTaskCredentials_getCredentials now ?s = (pid, ?s)" if "now \<le> T - 60000" for now
    using that w by (intro getCredentials_cached [OF p]) simp
  have miss: "EcsTaskCredentials_getCredentials now ?s =
            (loads self, ?s\<lparr>expireAfter := None, promise := Some (loads self), loads := Suc (loads self)\<rparr>)"
    if "T - 60000 < now" for now
    using getCredentials_expired [OF w that] by (simp add: l)
  show ?thesis
    using w hit miss by (simp add: settle_fields)
qed

text \<open>
  The theorem at a credential that expires at \<open>T = 3600000\<close>, received at time 2000: the
  call at \<open>T - 61 s\<close> is served the cached promise 0, the call at \<open>T - 59 s\<close> starts load 1.
\<close>

theorem watermark_before_expiry_witness:
  "EcsTaskCredentials_getCredentials 3539000
     (settle 0 (Inr (expiring_credentials 3600000)) 2000 awaiting_first_load) =
     (0, settle 0 (Inr (expiring_credentials 3600000)) 2000 awaiting_first_load)
   \<and> EcsTaskCredentials_getCredentials 3541000
       (settle 0 (Inr (expiring_credentials 3600000)) 2000 awaiting_first_load) =
       (1, (settle 0 (Inr (expiring_credentials 3600000)) 2000 awaiting_first_load)
             \<lparr>expireAfter := None, promise := Some 1, loads := 2\<rparr>)"
proof -
  have cur: "promise awaiting_first_load = Some 0"
    by (simp add: awaiting_first_load_eq)
  have exp: "expiresAt (expiring_credentials 3600000) = Some (Date 3600000)"
    by (simp add: expiring_credentials_def)
  have future: "(2000::int) < 3600000"
    by simp
  have l: "loads awaiting_first_load = 1"
    by (simp add: awaiting_first_load_eq)
  show ?thesis
    using watermark_before_expiry [OF cur exp future] unfolding l by simp
qed

text \<open>
  Claim C4 as stated fails. A credential whose \<^verbatim>\<open>expiresAt\<close> is \<open>T = 1000\<close> arrives at
  time 2000, already expired. It is cached, no watermark is set, and the call at time
  5000, which is after \<open>T - 60 s\<close>, is served the cached promise 0; no second load starts.
\<close>

theorem stale_credential_never_refreshed:
  "settled (settle 0 (Inr (expiring_credentials 1000)) 2000 awaiting_first_load) 0
     = Some (Inr (expiring_credentials 1000))
   \<and> (1000::int) - 60000 < 5000
   \<and> EcsTaskCredentials_getCredentials 5000
       (settle 0 (Inr (expiring_credentials 1000)) 2000 awaiting_first_load) =
       (0, settle 0 (Inr (expiring_credentials 1000)) 2000 awaiting_first_load)
   \<and> loads (settle 0 (Inr (expiring_credentials 1000)) 2000 awaiting_first_load) = 1"
proof -
  let ?s = "settle 0 (Inr (expiring_credentials 1000)) 2000 awaiting_first_load"
  have w: "expireAfter ?s = None"
    by (simp add: settle_fulfilled_expireAfter expiring_credentials_def awaiting_first_load_eq)
  have p: "promise ?s = Some 0"
    by (simp add: settle_fields awaiting_first_load_eq)
  show ?thesis
    using getCredentials_no_watermark [OF p w, of 5000]
    by (simp add: settle_fields awaiting_first_load_eq)
qed

text \<open>
  Claim C5. Let the load of a network-backed provider fail at time \<open>t0\<close>. Every call up to
  30 seconds after \<open>t0\<close> returns the same promise, rejected with that failure, and starts no
  load. A call more than 30 seconds after \<open>t0\<close> clears the slot, starts a fresh load and
  returns its promise.
\<close>

theorem negative_cache_window:
  assumes cur: "promise self = Some pid"
  shows "settled (settle pid (Inl err) t0 self) pid = Some (Inl err)
    \<and> (\<forall>now. now \<le> t0 + 30000 \<longrightarrow>
          EcsTaskCredentials_getCredentials now (settle pid (Inl err) t0 self) =
            (pid, settle pid (Inl err) t0 self))
    \<and> (\<forall>now. t0 + 30000 < now \<longrightarrow>
          EcsTaskCredentials_getCredentials now (settle pid (Inl err) t0 self) =
            (loads self,
             (settle pid (Inl err) t0 self)
               \<lparr>expireAfter := None, promise := Some (loads self), loads := Suc (loads self)\<rparr>))"
proof -
  let ?s = "settle pid (Inl err) t0 self"
  have w: "expireAfter ?s = Some (t0 + 30000)"
    by (simp add: settle_rejected_expireAfter)
  have p: "promise ?s = Some pid" and l: "loads ?s = loads self"
    using cur by (simp_all add: settle_fields)
  have hit: "EcsTaskCredentials_getCredentials now ?s = (pid, ?s)" if "now \<le> t0 + 30000" for now
    using that w by (intro getCredentials_cached [OF p]) simp
  have miss: "EcsTaskCredentials_getCredentials now ?s =
            (loads self, ?s\<lparr>expireAfter := None, promise := Some (loads self), loads := Suc (loads self)\<rparr>)"
    if "t0 + 30000 < now" for now
    using getCredentials_expired [OF w that] by (simp add: l)
  show ?thesis
    using hit miss by (simp add: settle_fields)
qed

text \<open>
  The theorem at a load that fails at time 2000 with HTTP 500: the call 10 seconds later
  gets the rejected promise 0, the call 31 seconds later starts load 1.
\<close>

theorem negative_cache_window_witness:
  "settled (settle 0 (Inl (new_Error ''ECS service endpoint returned HTTP 500'')) 2000
      awaiting_first_load) 0
     = Some (Inl (new_Error ''ECS service endpoint returned HTTP 500''))
   \<and> EcsTaskCredentials_getCredentials 12000
       (settle 0 (Inl (new_Error ''ECS service endpoint returned HTTP 500'')) 2000
          awaiting_first_load) =
       (0, settle 0 (Inl (new_Error ''ECS service endpoint returned HTTP 500'')) 2000
             awaiting_first_load)
   \<and> EcsTaskCredentials_getCredentials 33000
       (settle 0 (Inl (new_Error ''ECS service endpoint returned HTTP 500'')) 2000
          awaiting_first_load) =
       (1, (settle 0 (Inl (new_Error ''ECS service endpoint returned HTTP 500'')) 2000
              awaiting_first_load)
             \<lparr>expireAfter := None, promise := Some 1, loads := 2\<rparr>)"
proof -
  have cur: "promise awaiting_first_load = Some 0"
    by (simp add: awaiting_first_load_eq)
  have l: "loads awaiting_first_load = 1"
    by (simp add: awaiting_first_load_eq)
  show ?thesis
    using negative_cache_window [OF cur, of "new_Error ''ECS service endpoint returned HTTP 500''" 2000]
    unfolding l by simp
qed

text \<open>
  Claim C6. In every reachable state of a network-backed provider in which the promise
  held is pending, any number of calls, at any times, return that same promise and leave
  the state as it is: no load starts. (No watermark is set while a promise is pending, so
  there is nothing to expire.) From the constructed state, any number of calls before the
  first load settles start exactly one load. At most one load is outstanding in every
  reachable state. For \<^verbatim>\<open>SharedIniFileCredentials\<close>: once a promise is held, every call
  returns it; from a state with none, any number of calls start exactly one load.
\<close>

theorem single_flight:
  "(reachable self \<and> promise self = Some pid \<and> settled self pid = None \<longrightarrow>
      EcsTaskCredentials_calls nows self = (replicate (length nows) pid, self))
   \<and> (nows \<noteq> [] \<longrightarrow>
        EcsTaskCredentials_calls nows initial_provider =
          (replicate (length nows) 0, initial_provider\<lparr>promise := Some 0, loads := 1\<rparr>))
   \<and> (reachable self \<longrightarrow> finite (outstanding self) \<and> card (outstanding self) \<le> 1)
   \<and> (promise ini = Some p \<longrightarrow> SharedIniFileCredentials_calls n ini = (replicate n p, ini))
   \<and> (promise ini = None \<and> 0 < n \<longrightarrow>
        SharedIniFileCredentials_calls n ini =
          (replicate n (loads ini), ini\<lparr>promise := Some (loads ini), loads := Suc (loads ini)\<rparr>))"
proof (intro conjI impI)
  assume "reachable self \<and> promise self = Some pid \<and> settled self pid = None"
  then have "expireAfter self = None" and "promise self = Some pid"
    using pending_no_watermark by blast+
  then show "EcsTaskCredentials_calls nows self = (replicate (length nows) pid, self)"
    using calls_cached by blast
next
  assume "nows \<noteq> []"
  then show "EcsTaskCredentials_calls nows initial_provider =
        (replicate (length nows) 0, initial_provider\<lparr>promise := Some 0, loads := 1\<rparr>)"
    by (rule calls_first)
next
  assume "reachable self"
  then show "finite (outstanding self)" and "card (outstanding self) \<le> 1"
    using outstanding_le_one by blast+
next
  assume "promise ini = Some p"
  then show "SharedIniFileCredentials_calls n ini = (replicate n p, ini)"
    by (rule memo_calls_cached)
next
  assume "promise ini = None \<and> 0 < n"
  then show "SharedIniFileCredentials_calls n ini =
        (replicate n (loads ini), ini\<lparr>promise := Some (loads ini), loads := Suc (loads ini)\<rparr>)"
    using memo_calls_first by blast
qed

text \<open>
  The theorem at a provider whose first load is pending, called three more times, and at
  a \<^verbatim>\<open>SharedIniFileCredentials\<close> called three times: one load each.
\<close>

theorem single_flight_witness:
  "reachable awaiting_first_load
   \<and> EcsTaskCredentials_calls [1001, 1002, 900000] awaiting_first_load
       = ([0, 0, 0], awaiting_first_load)
   \<and> loads awaiting_first_load = 1
   \<and> EcsTaskCredentials_calls [1000, 1001] initial_provider
       = ([0, 0], initial_provider\<lparr>promise := Some 0, loads := 1\<rparr>)
   \<and> card (outstanding awaiting_first_load) \<le> 1
   \<and> SharedIniFileCredentials_calls 3 inline_ini_provider
       = ([0, 0, 0], inline_ini_provider\<lparr>promise := Some 0, loads := 1\<rparr>)"
proof -
  have r: "reachable awaiting_first_load"
    by (rule reachable_awaiting_first_load)
  have cur: "promise awaiting_first_load = Some 0" and pend: "settled awaiting_first_load 0 = None"
    and l: "loads awaiting_first_load = 1"
    by (simp_all add: awaiting_first_load_eq)
  have ini: "promise inline_ini_provider = None \<and> (0::nat) < 3" "loads inline_ini_provider = 0"
    by (simp_all add: inline_ini_provider_def)
  have three: "replicate 3 (0::nat) = [0, 0, 0]" "replicate (length [1001, 1002, 900000::int]) (0::nat) = [0, 0, 0]"
    "replicate (length [1000, 1001::int]) (0::nat) = [0, 0]"
    by (simp_all add: numeral_3_eq_3)
  have a: "EcsTaskCredentials_calls [1001, 1002, 900000] awaiting_first_load
       = ([0, 0, 0], awaiting_first_load)"
    using single_flight [of awaiting_first_load 0 "[1001, 1002, 900000]" inline_ini_provider 0 3]
      r cur pend unfolding three by blast
  have b: "EcsTaskCredentials_calls [1000, 1001] initial_provider
       = ([0, 0], initial_provider\<lparr>promise := Some 0, loads := 1\<rparr>)"
    using single_flight [of awaiting_first_load 0 "[1000, 1001]" inline_ini_provider 0 3]
    unfolding three by blast
  have c: "card (outstanding awaiting_first_load) \<le> 1"
    using single_flight [of awaiting_first_load 0 "[1000, 1001]" inline_ini_provider 0 3] r
    by blast
  have d: "SharedIniFileCredentials_calls 3 inline_ini_provider
       = ([0, 0, 0], inline_ini_provider\<lparr>promise := Some 0, loads := 1\<rparr>)"
    using single_flight [of awaiting_first_load 0 "[1000, 1001]" inline_ini_provider 0 3] ini(1)
    unfolding three ini(2) by simp
  show ?thesis
    using r a l b c d by blast
qed

text \<open>
  Claim C10. When a load settles with a credential, the watermark is set exactly when
  \<^verbatim>\<open>expiresAt\<close> is a valid date strictly later than the time of settlement; otherwise
  \<^verbatim>\<open>#expireAfter\<close> keeps its value. In a reachable state that value is \<^verbatim>\<open>null\<close> while
  the load is pending. So if \<^verbatim>\<open>expiresAt\<close> is absent, invalid, or not later than the time
  of settlement, no watermark is recorded, and from then on every call, at any time,
  returns the promise of that credential and starts no load.
\<close>

theorem watermark_only_for_future_expiry:
  "expireAfter (settle pid (Inr x) ts self) =
     (case expiresAt x of
        Some (Date T) \<Rightarrow> if ts < T then Some (T - 60000) else expireAfter self
      | Some InvalidDate \<Rightarrow> expireAfter self
      | None \<Rightarrow> expireAfter self)
   \<and> (reachable self \<and> promise self = Some pid \<and> settled self pid = None
        \<and> (expiresAt x = None \<or> expiresAt x = Some InvalidDate
             \<or> (\<exists>T. expiresAt x = Some (Date T) \<and> T \<le> ts)) \<longrightarrow>
        expireAfter (settle pid (Inr x) ts self) = None
        \<and> settled (settle pid (Inr x) ts self) pid = Some (Inr x)
        \<and> (\<forall>nows. EcsTaskCredentials_calls nows (settle pid (Inr x) ts self) =
              (replicate (length nows) pid, settle pid (Inr x) ts self)))"
proof -
  have a: "expireAfter (settle pid (Inr x) ts self) =
     (case expiresAt x of
        Some (Date T) \<Rightarrow> if ts < T then Some (T - 60000) else expireAfter self
      | Some InvalidDate \<Rightarrow> expireAfter self
      | None \<Rightarrow> expireAfter self)"
    by (simp add: settle_fulfilled_expireAfter split: option.splits date.splits)
  have b: "expireAfter (settle pid (Inr x) ts self) = None
        \<and> settled (settle pid (Inr x) ts self) pid = Some (Inr x)
        \<and> (\<forall>nows. EcsTaskCredentials_calls nows (settle pid (Inr x) ts self) =
              (replicate (length nows) pid, settle pid (Inr x) ts self))"
    if r: "reachable self" and cur: "promise self = Some pid" and pend: "settled self pid = None"
      and old: "expiresAt x = None \<or> expiresAt x = Some InvalidDate
             \<or> (\<exists>T. expiresAt x = Some (Date T) \<and> T \<le> ts)"
  proof -
    have before: "expireAfter self = None"
      by (rule pending_no_watermark [OF r cur pend])
    have none: "expireAfter (settle pid (Inr x) ts self) = None"
      using old before by (auto simp: a)
    have p: "promise (settle pid (Inr x) ts self) = Some pid"
      using cur by (simp add: settle_fields)
    show ?thesis
      using none calls_cached [OF p none] by (simp add: settle_fields)
  qed
  show ?thesis using a b by blast
qed

text \<open>
  The theorem at a credential with no \<^verbatim>\<open>expiresAt\<close>, received at time 2000, and at one
  that had expired at time 1000: calls a minute, a day and a year later get promise 0.
\<close>

theorem watermark_only_for_future_expiry_witness:
  "expireAfter (settle 0 (Inr static_credentials) 2000 awaiting_first_load) = None
   \<and> EcsTaskCredentials_calls [62000, 86400000, 31536000000]
       (settle 0 (Inr static_credentials) 2000 awaiting_first_load) =
       ([0, 0, 0], settle 0 (Inr static_credentials) 2000 awaiting_first_load)
   \<and> expireAfter (settle 0 (Inr (expiring_credentials 1000)) 2000 awaiting_first_load) = None
   \<and> EcsTaskCredentials_calls [62000, 86400000, 31536000000]
       (settle 0 (Inr (expiring_credentials 1000)) 2000 awaiting_first_load) =
       ([0, 0, 0], settle 0 (Inr (expiring_credentials 1000)) 2000 awaiting_first_load)"
proof -
  have r: "reachable awaiting_first_load"
    by (rule reachable_awaiting_first_load)
  have cur: "promise awaiting_first_load = Some 0" and pend: "settled awaiting_first_load 0 = None"
    by (simp_all add: awaiting_first_load_eq)
  have absent: "expiresAt static_credentials = None"
    by (simp add: static_credentials_def)
  have past: "\<exists>T. expiresAt (expiring_credentials 1000) = Some (Date T) \<and> T \<le> 2000"
    by (simp add: expiring_credentials_def)
  have three: "replicate (length [62000, 86400000, 31536000000::int]) (0::nat) = [0, 0, 0]"
    by (simp add: numeral_3_eq_3)
  have prem_a: "reachable awaiting_first_load \<and> promise awaiting_first_load = Some 0
        \<and> settled awaiting_first_load 0 = None
        \<and> (expiresAt static_credentials = None \<or> expiresAt static_credentials = Some InvalidDate
             \<or> (\<exists>T. expiresAt static_credentials = Some (Date T) \<and> T \<le> 2000))"
    using r cur pend absent by simp
  have prem_b: "reachable awaiting_first_load \<and> promise awaiting_first_load = Some 0
        \<and> settled awaiting_first_load 0 = None
        \<and> (expiresAt (expiring_credentials 1000) = None
             \<or> expiresAt (expiring_credentials 1000) = Some InvalidDate
             \<or> (\<exists>T. expiresAt (expiring_credentials 1000) = Some (Date T) \<and> T \<le> 2000))"
    using r cur pend past by simp
  note a = watermark_only_for_future_expiry
             [of 0 static_credentials 2000 awaiting_first_load, THEN conjunct2, THEN mp, OF prem_a]
  note b = watermark_only_for_future_expiry
             [of 0 "expiring_credentials 1000" 2000 awaiting_first_load, THEN conjunct2, THEN mp, OF prem_b]
  have a1: "expireAfter (settle 0 (Inr static_credentials) 2000 awaiting_first_load) = None"
    using a by (rule conjunct1)
  have a2: "EcsTaskCredentials_calls [62000, 86400000, 31536000000]
       (settle 0 (Inr static_credentials) 2000 awaiting_first_load) =
       ([0, 0, 0], settle 0 (Inr static_credentials) 2000 awaiting_first_load)"
    using a [THEN conjunct2, THEN conjunct2, THEN spec, of "[62000, 86400000, 31536000000]"]
    unfolding three .
  have b1: "expireAfter (settle 0 (Inr (expiring_credentials 1000)) 2000 awaiting_first_load) = None"
    using b by (rule conjunct1)
  have b2: "EcsTaskCredentials_calls [62000, 86400000, 31536000000]
       (settle 0 (Inr (expiring_credentials 1000)) 2000 awaiting_first_load) =
       ([0, 0, 0], settle 0 (Inr (expiring_credentials 1000)) 2000 awaiting_first_load)"
    using b [THEN conjunct2, THEN conjunct2, THEN spec, of "[62000, 86400000, 31536000000]"]
    unfolding three .
  show ?thesis
    by (intro conjI a1 a2 b1 b2)
qed

section \<open>SharedIniFileCredentials: the profile lookup\<close>

text \<open>
  Claim C3, as amended. Let the text of the file be read (inline or from the path) and
  parsed, and let \<open>p\<close> be the configured profile. The section keyed \<^verbatim>\<open>profile p\<close> is used
  if present, else the section keyed \<open>p\<close>. If neither exists, \<open>load\<close> fails with
  \<^verbatim>\<open>Profile p not found in credentials file\<close>. If the section used has no
  \<^verbatim>\<open>aws_access_key_id\<close> or no \<^verbatim>\<open>aws_secret_access_key\<close>, or either is the empty string,
  \<open>load\<close> fails with \<^verbatim>\<open>Profile p lacks static credentials\<close>. If both are present and not
  empty, \<open>load\<close> succeeds with these two values, the section's session token and region
  (each possibly absent), and no expiry.
\<close>

theorem shared_ini_profile_lookup:
  assumes read: "(case filedata self of Some t \<Rightarrow> Inr t | None \<Rightarrow> readTextFile (filename self)) = Inr content"
  shows
   "(ini_decode content (''profile '' @ profile self) = None \<and> ini_decode content (profile self) = None \<longrightarrow>
       SharedIniFileCredentials_load readTextFile ini_decode self =
         Inl (new_Error (''Profile '' @ profile self @ '' not found in credentials file'')))
    \<and> (\<forall>c. ini_decode content (''profile '' @ profile self) = Some c
             \<or> ini_decode content (''profile '' @ profile self) = None
                \<and> ini_decode content (profile self) = Some c \<longrightarrow>
          ((aws_access_key_id c = None \<or> aws_access_key_id c = Some []
              \<or> aws_secret_access_key c = None \<or> aws_secret_access_key c = Some [] \<longrightarrow>
            SharedIniFileCredentials_load readTextFile ini_decode self =
              Inl (new_Error (''Profile '' @ profile self @ '' lacks static credentials'')))
           \<and> (\<forall>k sk. aws_access_key_id c = Some k \<and> k \<noteq> []
                    \<and> aws_secret_access_key c = Some sk \<and> sk \<noteq> [] \<longrightarrow>
                SharedIniFileCredentials_load readTextFile ini_decode self =
                  Inr \<lparr>awsAccessKeyId = k, awsSecretKey = sk,
                       sessionToken = aws_session_token c, expiresAt = None,
                       region = ini_region c\<rparr>)))"
proof -
  let ?p = "profile self"
  let ?data = "ini_decode content"
  let ?load = "SharedIniFileCredentials_load readTextFile ini_decode self"
  have absent: "?load = Inl (new_Error (''Profile '' @ ?p @ '' not found in credentials file''))"
    if "?data (''profile '' @ ?p) = None" "?data ?p = None"
    using that read by (simp add: SharedIniFileCredentials_load_def)
  have chosen: "?load =
      (if falsy_string (aws_access_key_id c) \<or> falsy_string (aws_secret_access_key c)
       then Inl (new_Error (''Profile '' @ ?p @ '' lacks static credentials''))
       else Inr \<lparr>awsAccessKeyId = the (aws_access_key_id c),
                 awsSecretKey = the (aws_secret_access_key c),
                 sessionToken = aws_session_token c, expiresAt = None, region = ini_region c\<rparr>)"
    if "?data (''profile '' @ ?p) = Some c \<or> ?data (''profile '' @ ?p) = None \<and> ?data ?p = Some c"
    for c
    using that read by (auto simp: SharedIniFileCredentials_load_def)
  have incomplete: "?load = Inl (new_Error (''Profile '' @ ?p @ '' lacks static credentials''))"
    if "?data (''profile '' @ ?p) = Some c \<or> ?data (''profile '' @ ?p) = None \<and> ?data ?p = Some c"
      and "aws_access_key_id c = None \<or> aws_access_key_id c = Some []
              \<or> aws_secret_access_key c = None \<or> aws_secret_access_key c = Some []"
    for c
    using that(2) unfolding chosen [OF that(1)] by (auto simp: falsy_string_def)
  have complete: "?load = Inr \<lparr>awsAccessKeyId = k, awsSecretKey = sk,
                       sessionToken = aws_session_token c, expiresAt = None,
                       region = ini_region c\<rparr>"
    if "?data (''profile '' @ ?p) = Some c \<or> ?data (''profile '' @ ?p) = None \<and> ?data ?p = Some c"
      and "aws_access_key_id c = Some k \<and> k \<noteq> [] \<and> aws_secret_access_key c = Some sk \<and> sk \<noteq> []"
    for c k sk
    using that(2) unfolding chosen [OF that(1)] by (simp add: falsy_string_def)
  show ?thesis
    using absent incomplete complete by blast
qed

text \<open>
  The theorem at inline content with a section \<^verbatim>\<open>[profile foo]\<close> and the profile
  \<^verbatim>\<open>foo\<close>: the section's credentials are returned; with the profile \<^verbatim>\<open>bar\<close>, which has
  no section, the profile is not found.
\<close>

theorem shared_ini_profile_lookup_witness:
  "SharedIniFileCredentials_load no_file parsed_example inline_ini_provider =
     Inr \<lparr>awsAccessKeyId = ''AKIDEXAMPLE'', awsSecretKey = ''secret'',
          sessionToken = None, expiresAt = None, region = Some ''eu-west-1''\<rparr>
   \<and> SharedIniFileCredentials_load no_file parsed_example (inline_ini_provider\<lparr>profile := ''bar''\<rparr>) =
       Inl (new_Error ''Profile bar not found in credentials file'')"
proof -
  have read: "(case filedata inline_ini_provider of Some t \<Rightarrow> Inr t
               | None \<Rightarrow> no_file (filename inline_ini_provider)) = Inr ''[profile foo]''"
    by (simp add: inline_ini_provider_def)
  have read': "(case filedata (inline_ini_provider\<lparr>profile := ''bar''\<rparr>) of Some t \<Rightarrow> Inr t
               | None \<Rightarrow> no_file (filename (inline_ini_provider\<lparr>profile := ''bar''\<rparr>))) = Inr ''[profile foo]''"
    by (simp add: inline_ini_provider_def)
  have found: "parsed_example ''[profile foo]'' (''profile '' @ profile inline_ini_provider) = Some complete_section"
    by (simp add: parsed_example_def inline_ini_provider_def)
  have fields: "aws_access_key_id complete_section = Some ''AKIDEXAMPLE'' \<and> ''AKIDEXAMPLE'' \<noteq> []
      \<and> aws_secret_access_key complete_section = Some ''secret'' \<and> ''secret'' \<noteq> []"
    by (simp add: complete_section_def)
  have missing: "parsed_example ''[profile foo]'' (''profile '' @ profile (inline_ini_provider\<lparr>profile := ''bar''\<rparr>)) = None
      \<and> parsed_example ''[profile foo]'' (profile (inline_ini_provider\<lparr>profile := ''bar''\<rparr>)) = None"
    by (simp add: parsed_example_def)
  have a: "SharedIniFileCredentials_load no_file parsed_example inline_ini_provider =
     Inr \<lparr>awsAccessKeyId = ''AKIDEXAMPLE'', awsSecretKey = ''secret'',
          sessionToken = aws_session_token complete_section, expiresAt = None,
          region = ini_region complete_section\<rparr>"
    using shared_ini_profile_lookup
            [where self = inline_ini_provider and readTextFile = no_file
               and content = "''[profile foo]''" and ini_decode = parsed_example, OF read]
      found fields by blast
  have b: "SharedIniFileCredentials_load no_file parsed_example (inline_ini_provider\<lparr>profile := ''bar''\<rparr>) =
       Inl (new_Error (''Profile '' @ profile (inline_ini_provider\<lparr>profile := ''bar''\<rparr>)
              @ '' not found in credentials file''))"
    using shared_ini_profile_lookup
            [where self = "inline_ini_provider\<lparr>profile := ''bar''\<rparr>" and readTextFile = no_file
               and content = "''[profile foo]''" and ini_decode = parsed_example, OF read']
      missing by blast
  show ?thesis
    using a b by (simp add: complete_section_def)
qed

text \<open>
  Claim C3 as stated fails. The section \<^verbatim>\<open>[profile foo]\<close> has both fields, and the
  access key id is the empty string (a line \<^verbatim>\<open>aws_access_key_id =\<close>). The claim has
  \<open>load\<close> succeed with those values; \<open>load\<close> fails, because \<^verbatim>\<open>!""\<close> is true.
\<close>

theorem shared_ini_empty_key_rejected:
  "aws_access_key_id empty_key_section = Some []
   \<and> aws_secret_access_key empty_key_section = Some ''secret''
   \<and> SharedIniFileCredentials_load no_file (\<lambda>text. [''profile foo'' \<mapsto> empty_key_section])
        inline_ini_provider =
       Inl (new_Error ''Profile foo lacks static credentials'')"
  by (simp add: SharedIniFileCredentials_load_def inline_ini_provider_def empty_key_section_def
      falsy_string_def)

section \<open>JavaScript numbers: the error of rounding\<close>

lemma bit_length_bounds:
  "0 < n \<Longrightarrow> 2 ^ (bit_length n - 1) \<le> n \<and> n < 2 ^ bit_length n"
proof (induction n rule: bit_length.induct)
  case (1 n)
  show ?case
  proof (cases "n div 2 \<le> 0")
    case True
    with 1 have "n = 1" by linarith
    then show ?thesis by (simp add: bit_length.simps [of 1] bit_length.simps [of 0])
  next
    case False
    with 1 have ih: "2 ^ (bit_length (n div 2) - 1) \<le> n div 2" "n div 2 < 2 ^ bit_length (n div 2)"
      by auto
    have pos: "0 < bit_length (n div 2)"
      using False by (simp add: bit_length.simps [of "n div 2"])
    have bl: "bit_length n = Suc (bit_length (n div 2))"
      using 1 by (simp add: bit_length.simps [of n])
    have e1: "(2::int) ^ (bit_length n - 1) = 2 * 2 ^ (bit_length (n div 2) - 1)"
      using pos by (cases "bit_length (n div 2)") (simp_all add: bl)
    have e2: "(2::int) ^ bit_length n = 2 * 2 ^ bit_length (n div 2)"
      by (simp add: bl)
    have lo: "2 * 2 ^ (bit_length (n div 2) - 1) \<le> n"
      using ih(1) by linarith
    have hi: "n < 2 * 2 ^ bit_length (n div 2)"
      using ih(2) by linarith
    show ?thesis
      unfolding e1 e2 using lo hi by simp
  qed
qed

lemma delay_21600: "Math_floor (js_times (js_times (of_integer 21600) literal_0_95) (of_integer 1000)) = 20520000"
  by (simp add: Math_floor_def js_times_def round_double_def of_integer_def literal_0_95_def
    bit_length.simps Let_def)

lemma delay_3: "Math_floor (js_times (js_times (of_integer 3) literal_0_95) (of_integer 1000)) = 2849"
  by (simp add: Math_floor_def js_times_def round_double_def of_integer_def literal_0_95_def
    bit_length.simps Let_def)

lemma round_double_pos:
  assumes m: "0 < m"
  shows "\<exists>q s. round_double (m, e) = (q, e + int s) \<and> 0 < q \<and> \<bar>q * 2 ^ s - m\<bar> * 2 ^ 53 \<le> m"
proof (cases "bit_length m \<le> 53")
  case True
  then have "round_double (m, e) = (m, e + int 0)"
    using m by (simp add: round_double_def)
  moreover have "\<bar>m * 2 ^ 0 - m\<bar> * 2 ^ 53 \<le> m"
    using m by simp
  ultimately show ?thesis using m by blast
next
  case False
  define s where "s = bit_length m - 53"
  define q0 where "q0 = m div 2 ^ s"
  define r where "r = m mod 2 ^ s"
  define h where "h = (2::int) ^ (s - 1)"
  define q where "q = (if h < r \<or> (r = h \<and> odd q0) then q0 + 1 else q0)"
  have s_pos: "0 < s" using False by (simp add: s_def)
  have pw: "(2::int) ^ s = 2 * h"
    using s_pos by (cases s) (simp_all add: h_def)
  have "bit_length m - 1 = (s - 1) + 53"
    using False by (simp add: s_def)
  then have big: "(2::int) ^ (bit_length m - 1) = h * 2 ^ 53"
    by (simp add: h_def power_add)
  have low: "h * 2 ^ 53 \<le> m"
    using bit_length_bounds [OF m] big by simp
  have h_pos: "0 < h" by (simp add: h_def)
  have decomp: "m = q0 * (2 * h) + r"
    unfolding q0_def r_def pw [symmetric] by (simp only: div_mult_mod_eq)
  have r_range: "0 \<le> r" "r < 2 * h"
    unfolding r_def pw [symmetric] by simp_all
  have q0_pos: "0 < q0"
  proof -
    have "2 * h \<le> m" using low h_pos by simp
    then show ?thesis
      unfolding q0_def pw using h_pos by (simp add: pos_imp_zdiv_pos_iff)
  qed
  have err: "\<bar>q * (2 * h) - m\<bar> \<le> h"
  proof (cases "h < r \<or> (r = h \<and> odd q0)")
    case True
    then have "q = q0 + 1" by (simp add: q_def)
    then have "q * (2 * h) - m = 2 * h - r"
      using decomp by (simp add: algebra_simps)
    then show ?thesis using True r_range by auto
  next
    case False
    then have "q = q0" by (simp add: q_def)
    then have "q * (2 * h) - m = - r"
      using decomp by simp
    then show ?thesis using False r_range by auto
  qed
  have "\<bar>q * 2 ^ s - m\<bar> * 2 ^ 53 \<le> h * 2 ^ 53"
    unfolding pw using err by simp
  then have bound: "\<bar>q * 2 ^ s - m\<bar> * 2 ^ 53 \<le> m"
    using low by linarith
  have q_pos: "0 < q" using q0_pos by (simp add: q_def)
  have "round_double (m, e) = (q, e + int s)"
    using m False
    by (simp add: round_double_def Let_def q_def h_def r_def q0_def s_def)
  then show ?thesis using q_pos bound by blast
qed

lemma Math_floor_shift: "Math_floor (q, int k - 53) = (q * 2 ^ k) div 2 ^ 53"
proof (cases "53 \<le> k")
  case True
  then obtain d where k: "k = d + 53" using le_Suc_ex by (metis add.commute)
  have "Math_floor (q, int k - 53) = q * 2 ^ d"
    by (simp add: Math_floor_def k)
  moreover have "(q * 2 ^ k) div 2 ^ 53 = q * 2 ^ d"
    by (simp add: k power_add)
  ultimately show ?thesis by simp
next
  case False
  then obtain d where d: "53 = k + d" "0 < d"
    by (metis less_imp_add_positive not_le)
  have neg: "\<not> 0 \<le> int k - 53" using False by simp
  have "nat (- (int k - 53)) = d" using d by simp
  then have "Math_floor (q, int k - 53) = q div 2 ^ d"
    using neg by (simp add: Math_floor_def)
  moreover have "(q * 2 ^ k) div 2 ^ 53 = q div 2 ^ d"
  proof -
    have "(2::int) ^ 53 = 2 ^ k * 2 ^ d"
      using d(1) by (simp add: power_add [symmetric])
    then have "(q * 2 ^ k) div 2 ^ 53 = (2 ^ k * q) div (2 ^ k * 2 ^ d)"
      by (simp add: mult.commute)
    also have "\<dots> = q div 2 ^ d"
      by (rule div_mult_mult1) simp
    finally show ?thesis .
  qed
  ultimately show ?thesis by simp
qed

lemma delay_arith:
  fixes V B A n :: int
  assumes vb: "\<bar>V - B\<bar> * 9007199254740992 \<le> B"
    and ba: "\<bar>B - A\<bar> * 9007199254740992 \<le> A"
    and a: "A = 950 * n * 9007199254740992 - 400 * n"
    and n: "0 < n" "n \<le> 4294967296"
  shows "950 * n - 1 \<le> V div 9007199254740992 \<and> V div 9007199254740992 \<le> 950 * n"
proof -
  have a': "A = 8556839292003942000 * n"
    using a by simp
  have b1: "9007199254740992 * B - 9007199254740992 * A \<le> A"
    and b2: "9007199254740992 * A - 9007199254740992 * B \<le> A"
    using ba by (simp_all add: abs_if algebra_simps split: if_splits)
  have v1: "9007199254740992 * V - 9007199254740992 * B \<le> B"
    and v2: "9007199254740992 * B - 9007199254740992 * V \<le> B"
    using vb by (simp_all add: abs_if algebra_simps split: if_splits)
  have B_hi: "B < A + 950 * n"
    using b1 a' n by linarith
  have B_lo: "A - 950 * n < B"
    using b2 a' n by linarith
  have V_hi: "V < B + 951 * n"
    using v1 B_hi a' n by linarith
  have V_lo: "B - 951 * n < V"
    using v2 B_hi a' n by linarith
  have lo: "8556839292003942400 * n - 9007199254740992 \<le> V"
    using V_lo B_lo a' n by linarith
  have hi: "V < 8556839292003942400 * n + 9007199254740992"
    using V_hi B_hi a' n by linarith
  define D where "D = V div 9007199254740992"
  define R where "R = V mod 9007199254740992"
  have "9007199254740992 * D + R = V"
    unfolding D_def R_def by (simp only: mult_div_mod_eq)
  moreover have "0 \<le> R" "R < 9007199254740992"
    unfolding R_def by simp_all
  ultimately have "950 * n - 1 \<le> D \<and> D \<le> 950 * n"
    using lo hi by linarith
  then show ?thesis by (simp add: D_def)
qed

lemma delay_bounds:
  assumes n0: "0 \<le> n" and n1: "n \<le> 4294967296"
  shows "950 * n - 1 \<le> Math_floor (js_times (js_times (of_integer n) literal_0_95) (of_integer 1000))
       \<and> Math_floor (js_times (js_times (of_integer n) literal_0_95) (of_integer 1000)) \<le> 950 * n"
proof (cases "n = 0")
  case True
  then show ?thesis
    by (simp add: Math_floor_def js_times_def round_double_def of_integer_def literal_0_95_def
        bit_length.simps [of 0])
next
  case False
  with n0 have n: "0 < n" by simp
  define M :: int where "M = 8556839292003942"
  define c :: int where "c = 9007199254740992"
  have c: "(2::int) ^ 53 = c" by (simp add: c_def)
  have pos1: "0 < n * M" using n by (simp add: M_def)
  obtain q1 s1 where r1: "round_double (n * M, - 53) = (q1, - 53 + int s1)"
    and q1: "0 < q1" and e1: "\<bar>q1 * 2 ^ s1 - n * M\<bar> * c \<le> n * M"
    using round_double_pos [OF pos1, of "- 53"] unfolding c by blast
  have pos2: "0 < q1 * 1000" using q1 by simp
  obtain q2 s2 where r2: "round_double (q1 * 1000, - 53 + int s1) = (q2, - 53 + int s1 + int s2)"
    and e2: "\<bar>q2 * 2 ^ s2 - q1 * 1000\<bar> * c \<le> q1 * 1000"
    using round_double_pos [OF pos2, of "- 53 + int s1"] unfolding c by blast
  have x1: "js_times (of_integer n) literal_0_95 = (q1, - 53 + int s1)"
    using r1 by (simp add: js_times_def of_integer_def literal_0_95_def M_def)
  have x2: "js_times (q1, - 53 + int s1) (of_integer 1000) = (q2, int (s1 + s2) - 53)"
    using r2 by (simp add: js_times_def of_integer_def)
  have fl: "Math_floor (js_times (js_times (of_integer n) literal_0_95) (of_integer 1000))
              = (q2 * 2 ^ (s1 + s2)) div c"
    unfolding x1 x2 Math_floor_shift c ..
  define V where "V = q2 * 2 ^ (s1 + s2)"
  define B where "B = 1000 * q1 * 2 ^ s1"
  define A where "A = 1000 * (n * M)"
  have p1: "(0::int) < 2 ^ s1" by simp
  have "\<bar>V - B\<bar> = \<bar>q2 * 2 ^ s2 - q1 * 1000\<bar> * 2 ^ s1"
  proof -
    have "V - B = (q2 * 2 ^ s2 - q1 * 1000) * 2 ^ s1"
      by (simp add: V_def B_def power_add algebra_simps)
    then have "\<bar>V - B\<bar> = \<bar>(q2 * 2 ^ s2 - q1 * 1000) * 2 ^ s1\<bar>"
      by (rule arg_cong)
    also have "\<dots> = \<bar>q2 * 2 ^ s2 - q1 * 1000\<bar> * 2 ^ s1"
      unfolding abs_mult by simp
    finally show ?thesis .
  qed
  then have "\<bar>V - B\<bar> * c = (\<bar>q2 * 2 ^ s2 - q1 * 1000\<bar> * c) * 2 ^ s1"
    by (simp add: algebra_simps)
  also have "\<dots> \<le> (q1 * 1000) * 2 ^ s1"
    using e2 p1 by (simp add: mult_right_mono)
  also have "\<dots> = B" by (simp add: B_def algebra_simps)
  finally have vb: "\<bar>V - B\<bar> * c \<le> B" .
  have "\<bar>B - A\<bar> = 1000 * \<bar>q1 * 2 ^ s1 - n * M\<bar>"
  proof -
    have "B - A = 1000 * (q1 * 2 ^ s1 - n * M)"
      by (simp add: B_def A_def algebra_simps)
    then have "\<bar>B - A\<bar> = \<bar>1000 * (q1 * 2 ^ s1 - n * M)\<bar>"
      by (rule arg_cong)
    also have "\<dots> = 1000 * \<bar>q1 * 2 ^ s1 - n * M\<bar>"
      unfolding abs_mult by simp
    finally show ?thesis .
  qed
  then have "\<bar>B - A\<bar> * c = 1000 * (\<bar>q1 * 2 ^ s1 - n * M\<bar> * c)"
    by (simp add: algebra_simps)
  also have "\<dots> \<le> 1000 * (n * M)"
    using e1 by simp
  finally have ba: "\<bar>B - A\<bar> * c \<le> A" by (simp add: A_def)
  have a: "A = 950 * n * c - 400 * n"
    by (simp add: A_def M_def c_def)
  show ?thesis
    unfolding fl V_def [symmetric]
    using delay_arith [of V B A n] vb ba a n n1 unfolding c_def by blast
qed

section \<open>IMDSv2: the token\<close>

lemma fetchNewToken_request:
  "snd (IMDSv2_fetchNewToken performRawRequest self) =
     \<lparr>request_method = PUT, path = ''api/token'',
      request_timeoutMs = (if \<not> falsy_string (cachedToken self) then apiTimeoutMs self
                           else timeoutMs self),
      headers = [Token_ttl_seconds (tokenTtlSeconds self)]\<rparr>"
  by (simp add: IMDSv2_fetchNewToken_def Let_def)

text \<open>
  \<open>getToken\<close> fetches a token only when none is cached, and \<open>fetchNewToken\<close> picks the
  timeout by that same test: every request that \<open>getToken\<close> makes carries \<open>timeoutMs\<close>.
\<close>

lemma getToken_timeout:
  "list_all (\<lambda>request. request_timeoutMs request = timeoutMs self)
     (fst (snd (snd (IMDSv2_getToken performRawRequest self))))"
proof (cases "falsy_string (cachedToken self)")
  case False
  then show ?thesis by (simp add: IMDSv2_getToken_def)
next
  case True
  obtain r request where f: "IMDSv2_fetchNewToken performRawRequest self = (r, request)"
    by (cases "IMDSv2_fetchNewToken performRawRequest self")
  have "request_timeoutMs request = timeoutMs self"
    using fetchNewToken_request [of performRawRequest self] True f by simp
  then show ?thesis
    using True f by (cases r) (auto simp: IMDSv2_getToken_def)
qed

lemma default_client_constructed:
  "IMDSv2_constructor unset_env simple_URL no_options = Inr default_client"
  by (simp add: IMDSv2_constructor_def unset_env_def simple_URL_def no_options_def
      default_client_def falsy_string_def Math_floor_def of_integer_def)

text \<open>
  Claim C7, as amended. When \<open>getToken\<close> finds no token cached and the token endpoint
  answers, the token is cached and one timer is set for its invalidation. Its delay is
  \<open>max 1000 d\<close> ms, where \<open>d\<close> is \<^verbatim>\<open>Math.floor(ttlSeconds * 0.95 * 1000)\<close> as JavaScript
  computes it, each product rounded to the nearest double. For \<open>0 \<le> ttlSeconds \<le> 2^32\<close>,
  \<open>d\<close> is \<open>950 * ttlSeconds\<close> or one less; for \<open>ttlSeconds = 21600\<close> it is \<open>20520000\<close>,
  which is \<open>0.95 * 21600 * 1000\<close>.
\<close>

theorem token_invalidation_delay:
  assumes cache: "falsy_string (cachedToken self)"
    and resp: "performRawRequest
                 \<lparr>request_method = PUT, path = ''api/token'', request_timeoutMs = timeoutMs self,
                  headers = [Token_ttl_seconds (tokenTtlSeconds self)]\<rparr> = Inr tok"
  shows "IMDSv2_getToken performRawRequest self =
           (Inr tok, self\<lparr>cachedToken := Some tok\<rparr>,
            [\<lparr>request_method = PUT, path = ''api/token'', request_timeoutMs = timeoutMs self,
              headers = [Token_ttl_seconds (tokenTtlSeconds self)]\<rparr>],
            [(max 1000 (Math_floor (js_times (js_times (of_integer (tokenTtlSeconds self))
                                                literal_0_95) (of_integer 1000))), tok)])
    \<and> (0 \<le> tokenTtlSeconds self \<and> tokenTtlSeconds self \<le> 4294967296 \<longrightarrow>
         950 * tokenTtlSeconds self - 1
           \<le> Math_floor (js_times (js_times (of_integer (tokenTtlSeconds self)) literal_0_95)
                 (of_integer 1000))
         \<and> Math_floor (js_times (js_times (of_integer (tokenTtlSeconds self)) literal_0_95)
                 (of_integer 1000)) \<le> 950 * tokenTtlSeconds self)
    \<and> (tokenTtlSeconds self = 21600 \<longrightarrow>
         snd (snd (snd (IMDSv2_getToken performRawRequest self))) = [(20520000, tok)])"
proof -
  have run: "IMDSv2_getToken performRawRequest self =
           (Inr tok, self\<lparr>cachedToken := Some tok\<rparr>,
            [\<lparr>request_method = PUT, path = ''api/token'', request_timeoutMs = timeoutMs self,
              headers = [Token_ttl_seconds (tokenTtlSeconds self)]\<rparr>],
            [(max 1000 (Math_floor (js_times (js_times (of_integer (tokenTtlSeconds self))
                                                literal_0_95) (of_integer 1000))), tok)])"
    using cache resp by (simp add: IMDSv2_getToken_def IMDSv2_fetchNewToken_def Let_def)
  have default: "snd (snd (snd (IMDSv2_getToken performRawRequest self))) = [(20520000, tok)]"
    if "tokenTtlSeconds self = 21600"
    unfolding run using that by (simp add: delay_21600)
  show ?thesis
    using run default delay_bounds [of "tokenTtlSeconds self"] by blast
qed

text \<open>The theorem at the default client: a TTL of 21600 s gives a timer of 20520000 ms.\<close>

theorem token_invalidation_delay_witness:
  "IMDSv2_getToken issue_token default_client =
     (Inr ''token-1'', default_client\<lparr>cachedToken := Some ''token-1''\<rparr>,
      [\<lparr>request_method = PUT, path = ''api/token'', request_timeoutMs = 1000,
        headers = [Token_ttl_seconds 21600]\<rparr>],
      [(20520000, ''token-1'')])"
proof -
  have cache: "falsy_string (cachedToken default_client)"
    by (simp add: default_client_def falsy_string_def)
  have resp: "issue_token
                 \<lparr>request_method = PUT, path = ''api/token'',
                  request_timeoutMs = timeoutMs default_client,
                  headers = [Token_ttl_seconds (tokenTtlSeconds default_client)]\<rparr> = Inr ''token-1''"
    by (simp add: issue_token_def)
  have fields: "timeoutMs default_client = 1000" "tokenTtlSeconds default_client = 21600"
    by (simp_all add: default_client_def)
  have d: "max 1000 (Math_floor (js_times (js_times (of_integer 21600) literal_0_95)
             (of_integer 1000))) = 20520000"
    by (simp add: delay_21600)
  show ?thesis
    using token_invalidation_delay
            [where self = default_client and performRawRequest = issue_token
               and tok = "''token-1''", OF cache resp, THEN conjunct1]
    unfolding fields d .
qed

text \<open>
  Claim C7 as stated fails, if its formula is read in exact arithmetic. For a client made
  with \<^verbatim>\<open>tokenTtlSeconds: 3\<close> the formula gives 2850 ms; the timer is set to 2849 ms,
  because \<^verbatim>\<open>3 * 0.95\<close> is \<^verbatim>\<open>2.8499999999999996\<close> in doubles.
\<close>

theorem token_delay_rounds_down:
  "IMDSv2_constructor unset_env simple_URL (no_options\<lparr>opt_tokenTtlSeconds := Some (of_integer 3)\<rparr>)
     = Inr short_ttl_client
   \<and> spec_invalidation_delay 3 = 2850
   \<and> IMDSv2_getToken issue_token short_ttl_client =
       (Inr ''token-1'', short_ttl_client\<lparr>cachedToken := Some ''token-1''\<rparr>,
        [\<lparr>request_method = PUT, path = ''api/token'', request_timeoutMs = 1000,
          headers = [Token_ttl_seconds 3]\<rparr>],
        [(2849, ''token-1'')])"
proof -
  have made: "IMDSv2_constructor unset_env simple_URL
                (no_options\<lparr>opt_tokenTtlSeconds := Some (of_integer 3)\<rparr>) = Inr short_ttl_client"
    by (simp add: IMDSv2_constructor_def unset_env_def simple_URL_def no_options_def
        short_ttl_client_def default_client_def falsy_string_def Math_floor_def of_integer_def)
  have run: "IMDSv2_getToken issue_token short_ttl_client =
       (Inr ''token-1'', short_ttl_client\<lparr>cachedToken := Some ''token-1''\<rparr>,
        [\<lparr>request_method = PUT, path = ''api/token'', request_timeoutMs = 1000,
          headers = [Token_ttl_seconds 3]\<rparr>],
        [(2849, ''token-1'')])"
    by (simp add: IMDSv2_getToken_def IMDSv2_fetchNewToken_def Let_def
        short_ttl_client_def default_client_def falsy_string_def issue_token_def delay_3)
  show ?thesis
    using made run by (simp add: spec_invalidation_delay_def)
qed

text \<open>
  Claim C8 fails on the code. The client is made with the defaults: 1000 ms for discovery,
  5000 ms for later calls. Its first token fetch carries 1000 ms. The timer set for the
  token fires and clears it. The next \<open>getToken\<close> fetches a token again, and this later
  fetch carries 1000 ms as well, not 5000 ms: \<open>fetchNewToken\<close> reads \<open>cachedToken\<close> to choose,
  and \<open>getToken\<close> calls it only when \<open>cachedToken\<close> is empty.
\<close>

theorem token_refetch_uses_discovery_timeout:
  "IMDSv2_constructor unset_env simple_URL no_options = Inr default_client
   \<and> timeoutMs default_client = 1000
   \<and> apiTimeoutMs default_client = 5000
   \<and> IMDSv2_getToken issue_token default_client =
       (Inr ''token-1'', default_client\<lparr>cachedToken := Some ''token-1''\<rparr>,
        [\<lparr>request_method = PUT, path = ''api/token'', request_timeoutMs = 1000,
          headers = [Token_ttl_seconds 21600]\<rparr>],
        [(20520000, ''token-1'')])
   \<and> token_timer_fires ''token-1'' (default_client\<lparr>cachedToken := Some ''token-1''\<rparr>)
       = default_client
   \<and> fst (snd (snd (IMDSv2_getToken issue_token
         (token_timer_fires ''token-1'' (default_client\<lparr>cachedToken := Some ''token-1''\<rparr>))))) =
       [\<lparr>request_method = PUT, path = ''api/token'', request_timeoutMs = 1000,
         headers = [Token_ttl_seconds 21600]\<rparr>]"
proof -
  have first: "IMDSv2_getToken issue_token default_client =
       (Inr ''token-1'', default_client\<lparr>cachedToken := Some ''token-1''\<rparr>,
        [\<lparr>request_method = PUT, path = ''api/token'', request_timeoutMs = 1000,
          headers = [Token_ttl_seconds 21600]\<rparr>],
        [(20520000, ''token-1'')])"
    by (simp add: IMDSv2_getToken_def IMDSv2_fetchNewToken_def Let_def default_client_def
        falsy_string_def issue_token_def delay_21600)
  have fires: "token_timer_fires ''token-1'' (default_client\<lparr>cachedToken := Some ''token-1''\<rparr>)
       = default_client"
    by (simp add: token_timer_fires_def default_client_def)
  show ?thesis
    unfolding fires first
    by (simp add: default_client_constructed) (simp add: default_client_def)
qed

section \<open>The metadata client disabled\<close>

lemma IMDSv2_disabled:
  "env ''AWS_EC2_METADATA_DISABLED'' = Str ''true'' \<Longrightarrow>
   IMDSv2_constructor env new_URL opts =
     Inl (new_Error ''IMDSv2 client is disabled via environment: AWS_EC2_METADATA_DISABLED=true'')"
  by (simp add: IMDSv2_constructor_def)

lemma disabled_line:
  "srcName (EC2MetadataCredentials_factory env new_URL inject) @
     error_summary (new_Error ''IMDSv2 client is disabled via environment: AWS_EC2_METADATA_DISABLED=true'')
   = ''    - EC2MetadataCredentials() Error: IMDSv2 client is disabled via environment: AWS_EC2_METADATA_DISABLED=true''"
  by (simp add: srcName_def EC2MetadataCredentials_factory_def providerLabel_def error_summary_def
      new_Error_def first_line_def newline_def)

text \<open>The events of one turn of the loop.\<close>

lemma discover_step_events:
  "e \<in> set (snd (snd (discover getCreds (f # fs) i errors))) \<Longrightarrow>
   e = Instantiate i \<or> e = Resolve i
     \<or> (\<exists>errors'. e \<in> set (snd (snd (discover getCreds fs (Suc i) errors'))))"
proof (cases "call f")
  case (Inl err)
  assume e: "e \<in> set (snd (snd (discover getCreds (f # fs) i errors)))"
  show ?thesis
  proof (cases "catch_block f err errors")
    case (Inl thrown)
    then show ?thesis
      using e \<open>call f = Inl err\<close> by auto
  next
    case (Inr errors')
    then have "e = Instantiate i \<or> e \<in> set (snd (snd (discover getCreds fs (Suc i) errors')))"
      using e \<open>call f = Inl err\<close> by (simp add: split_beta)
    then show ?thesis by blast
  qed
next
  case (Inr p)
  assume e: "e \<in> set (snd (snd (discover getCreds (f # fs) i errors)))"
  obtain r p' where r: "getCreds p = (r, p')"
    by (cases "getCreds p")
  show ?thesis
  proof (cases r)
    case (Inr creds)
    then have "e = Instantiate i \<or> e = Resolve i"
      using e \<open>call f = Inr p\<close> r by simp
    then show ?thesis by blast
  next
    case (Inl err)
    show ?thesis
    proof (cases "catch_block f err errors")
      case (Inl thrown)
      then show ?thesis
        using e \<open>call f = Inr p\<close> r \<open>r = Inl err\<close> by auto
    next
      case (Inr errors')
      then have "e = Instantiate i \<or> e = Resolve i
          \<or> e \<in> set (snd (snd (discover getCreds fs (Suc i) errors')))"
        using e \<open>call f = Inr p\<close> r \<open>r = Inl err\<close> by (simp add: split_beta)
      then show ?thesis by blast
    qed
  qed
qed

text \<open>
  \<^verbatim>\<open>getCredentials\<close> is called only on a provider that was made: an entry whose factory
  throws has no \<open>Resolve\<close> in the log of discovery.
\<close>

lemma discover_resolve_made:
  "Resolve j \<in> set (snd (snd (discover getCreds fs i errors))) \<Longrightarrow>
   i \<le> j \<and> j < i + length fs \<and> \<not> isl (call (fs ! (j - i)))"
proof (induction fs arbitrary: i errors)
  case Nil
  then show ?case by simp
next
  case (Cons f fs)
  show ?case
  proof (cases "j = i")
    case True
    have "False" if thrown: "isl (call f)"
    proof -
      obtain err where err: "call f = Inl err"
        using thrown by (auto simp: isl_def)
      show False
      proof (cases "catch_block f err errors")
        case (Inl thrown)
        then show False
          using Cons.prems err True by simp
      next
        case (Inr errors')
        then have "Resolve j \<in> set (snd (snd (discover getCreds fs (Suc i) errors')))"
          using Cons.prems err by (simp add: split_beta)
        then have "Suc i \<le> j"
          using Cons.IH by blast
        then show False
          using True by simp
      qed
    qed
    then show ?thesis
      using True by auto
  next
    case False
    obtain errors' where "Resolve j \<in> set (snd (snd (discover getCreds fs (Suc i) errors')))"
      using discover_step_events [OF Cons.prems] False by auto
    then have "Suc i \<le> j \<and> j < Suc i + length fs \<and> \<not> isl (call (fs ! (j - Suc i)))"
      by (rule Cons.IH)
    then show ?thesis
      by (simp add: nth_Cons')
  qed
qed

lemma discover_fails:
  "\<forall>f \<in> set fs. provider_fails getCreds f \<Longrightarrow> isl (fst (discover getCreds fs i errors))"
proof (induction fs arbitrary: i errors)
  case Nil
  then show ?case by simp
next
  case (Cons f fs)
  have rest: "isl (fst (discover getCreds fs (Suc i) errors'))" for errors'
    using Cons by simp
  have this_one: "provider_fails getCreds f"
    using Cons.prems by simp
  show ?case
  proof (cases "call f")
    case (Inl err)
    then show ?thesis
      using rest by (simp add: split_beta split: sum.splits)
  next
    case (Inr p)
    then have "isl (fst (getCreds p))"
      using this_one by (simp add: provider_fails_def)
    then obtain err p' where "getCreds p = (Inl err, p')"
      by (cases "getCreds p") (auto simp: isl_def)
    then show ?thesis
      using Inr rest by (simp add: split_beta split: sum.splits)
  qed
qed

text \<open>
  Claim C9. If \<^verbatim>\<open>AWS_EC2_METADATA_DISABLED\<close> is the string \<^verbatim>\<open>true\<close>, the constructor of
  \<open>IMDSv2\<close> throws, whatever its options, and so does the constructor of
  \<open>EC2MetadataCredentials\<close> when it is given no client. When discovery reaches the entry
  \<^verbatim>\<open>() => new EC2MetadataCredentials()\<close> as the last of a chain (as in the default chain),
  it calls that factory, adds the line of that failure to the errors gathered so far, and
  fails with the aggregate error. In such a chain \<^verbatim>\<open>getCredentials\<close> is never called for
  that entry; if the other entries all fail, the chain fails; and if moreover their
  failures can be printed by the \<^verbatim>\<open>catch\<close> block, discovery reaches the last entry and the
  aggregate error ends with the line of that failure.
\<close>

theorem ec2_metadata_disabled:
  assumes off: "env ''AWS_EC2_METADATA_DISABLED'' = Str ''true''"
  shows "IMDSv2_constructor env new_URL opts =
           Inl (new_Error ''IMDSv2 client is disabled via environment: AWS_EC2_METADATA_DISABLED=true'')
    \<and> EC2MetadataCredentials_constructor env new_URL None =
           Inl (new_Error ''IMDSv2 client is disabled via environment: AWS_EC2_METADATA_DISABLED=true'')
    \<and> discover getCreds [EC2MetadataCredentials_factory env new_URL inject] i errors =
           (Inl (aggregate_error (errors @
              [''    - EC2MetadataCredentials() Error: IMDSv2 client is disabled via environment: AWS_EC2_METADATA_DISABLED=true''])),
            None, [Instantiate i])
    \<and> Resolve (length pre) \<notin> set (snd (snd (CredentialsProviderChain_getCredentials getCreds
            \<lparr>chain = pre @ [EC2MetadataCredentials_factory env new_URL inject], supplier = None\<rparr>)))
    \<and> ((\<forall>f \<in> set pre. provider_fails getCreds f) \<longrightarrow>
          isl (fst (CredentialsProviderChain_getCredentials getCreds
            \<lparr>chain = pre @ [EC2MetadataCredentials_factory env new_URL inject], supplier = None\<rparr>)))
    \<and> ((\<forall>f \<in> set pre. provider_fails getCreds f \<and> printable (failure_of getCreds f)) \<longrightarrow>
          CredentialsProviderChain_getCredentials getCreds
            \<lparr>chain = pre @ [EC2MetadataCredentials_factory env new_URL inject], supplier = None\<rparr> =
            (Inl (aggregate_error (concat (map (failure_lines getCreds) pre) @
               [''    - EC2MetadataCredentials() Error: IMDSv2 client is disabled via environment: AWS_EC2_METADATA_DISABLED=true''])),
             \<lparr>chain = pre @ [EC2MetadataCredentials_factory env new_URL inject], supplier = None\<rparr>,
             concat (map (\<lambda>j. attempt_events (pre ! j) j) [0..<length pre])
               @ [Instantiate (length pre)]))"
proof -
  let ?err = "new_Error ''IMDSv2 client is disabled via environment: AWS_EC2_METADATA_DISABLED=true''"
  let ?f = "EC2MetadataCredentials_factory env new_URL inject"
  have client: "IMDSv2_constructor env new_URL opts = Inl ?err" for opts
    using off by (rule IMDSv2_disabled)
  have provider: "EC2MetadataCredentials_constructor env new_URL None = Inl ?err"
    by (simp add: EC2MetadataCredentials_constructor_def client)
  have thrown: "call ?f = Inl ?err"
    by (simp add: EC2MetadataCredentials_factory_def provider)
  have pushed: "catch_block ?f ?err errors = Inr (errors @
      [''    - EC2MetadataCredentials() Error: IMDSv2 client is disabled via environment: AWS_EC2_METADATA_DISABLED=true''])"
    for errors
    unfolding disabled_line [of env new_URL inject, symmetric]
    by (simp add: catch_block_def new_Error_def)
  have last: "discover getCreds [?f] i errors =
      (Inl (aggregate_error (errors @
         [''    - EC2MetadataCredentials() Error: IMDSv2 client is disabled via environment: AWS_EC2_METADATA_DISABLED=true''])),
       None, [Instantiate i])" for i errors
    using thrown by (simp add: pushed)
  have never: "Resolve (length pre) \<notin> set (snd (snd (CredentialsProviderChain_getCredentials getCreds
            \<lparr>chain = pre @ [?f], supplier = None\<rparr>)))"
  proof
    assume "Resolve (length pre) \<in> set (snd (snd (CredentialsProviderChain_getCredentials getCreds
            \<lparr>chain = pre @ [?f], supplier = None\<rparr>)))"
    then have "Resolve (length pre) \<in> set (snd (snd (discover getCreds (pre @ [?f]) 0 [])))"
      by (simp add: CredentialsProviderChain_getCredentials_def split_beta)
    then have "\<not> isl (call ((pre @ [?f]) ! (length pre - 0)))"
      using discover_resolve_made by blast
    then show False
      using thrown by simp
  qed
  have fails_all: "isl (fst (CredentialsProviderChain_getCredentials getCreds
            \<lparr>chain = pre @ [?f], supplier = None\<rparr>))"
    if fails: "\<forall>f \<in> set pre. provider_fails getCreds f"
  proof -
    have "provider_fails getCreds ?f"
      using thrown by (simp add: provider_fails_def)
    then have "\<forall>f \<in> set (pre @ [?f]). provider_fails getCreds f"
      using fails by simp
    then have "isl (fst (discover getCreds (pre @ [?f]) 0 []))"
      by (rule discover_fails)
    then show ?thesis
      by (simp add: CredentialsProviderChain_getCredentials_def split_beta)
  qed
  have chain: "CredentialsProviderChain_getCredentials getCreds
            \<lparr>chain = pre @ [?f], supplier = None\<rparr> =
            (Inl (aggregate_error (concat (map (failure_lines getCreds) pre) @
               [''    - EC2MetadataCredentials() Error: IMDSv2 client is disabled via environment: AWS_EC2_METADATA_DISABLED=true''])),
             \<lparr>chain = pre @ [?f], supplier = None\<rparr>,
             concat (map (\<lambda>j. attempt_events (pre ! j) j) [0..<length pre])
               @ [Instantiate (length pre)])"
    if fails: "\<forall>f \<in> set pre. provider_fails getCreds f \<and> printable (failure_of getCreds f)"
  proof -
    have "discover getCreds (pre @ [?f]) 0 [] =
            (Inl (aggregate_error (concat (map (failure_lines getCreds) pre) @
               [''    - EC2MetadataCredentials() Error: IMDSv2 client is disabled via environment: AWS_EC2_METADATA_DISABLED=true''])),
             None,
             concat (map (\<lambda>j. attempt_events (pre ! j) j) [0..<length pre])
               @ [Instantiate (length pre)])"
      unfolding discover_failed_prefix [OF fails] last by simp
    then show ?thesis
      by (simp add: CredentialsProviderChain_getCredentials_def)
  qed
  show ?thesis
    using client provider last never fails_all chain by blast
qed

text \<open>
  The theorem at a chain of two: the environment provider rejects, the metadata client is
  disabled. Discovery makes three calls and none of them is \<open>Resolve 1\<close>.
\<close>

theorem ec2_metadata_disabled_witness:
  "IMDSv2_constructor disabled_env simple_URL no_options =
     Inl (new_Error ''IMDSv2 client is disabled via environment: AWS_EC2_METADATA_DISABLED=true'')
   \<and> CredentialsProviderChain_getCredentials scripted
       \<lparr>chain = [env_unset_factory] @
                  [EC2MetadataCredentials_factory disabled_env simple_URL (\<lambda>provider. Inl Falsy)],
        supplier = None\<rparr> =
       (Inl (new_Error (join_lines
          [''Failed to load any possible AWS credentials:'',
           ''    - EnvironmentCredentials('AWS') Error: AWS environment variables not set'',
           ''    - EC2MetadataCredentials() Error: IMDSv2 client is disabled via environment: AWS_EC2_METADATA_DISABLED=true''])),
        \<lparr>chain = [env_unset_factory] @
                   [EC2MetadataCredentials_factory disabled_env simple_URL (\<lambda>provider. Inl Falsy)],
         supplier = None\<rparr>,
        [Instantiate 0, Resolve 0, Instantiate 1])"
proof -
  have off: "disabled_env ''AWS_EC2_METADATA_DISABLED'' = Str ''true''"
    by (simp add: disabled_env_def)
  have fails: "\<forall>f \<in> set [env_unset_factory]. provider_fails scripted f
                 \<and> printable (failure_of scripted f)"
    by (simp add: provider_fails_def failure_of_def printable_def new_Error_def scripted_def
        env_unset_factory_def)
  have lines: "concat (map (failure_lines scripted) [env_unset_factory]) =
      [''    - EnvironmentCredentials('AWS') Error: AWS environment variables not set'']"
    by (simp add: failure_lines_def failure_of_def scripted_def catch_block_def srcName_def
        providerLabel_def error_summary_def new_Error_def first_line_def newline_def
        env_unset_factory_def)
  have evs: "concat (map (\<lambda>j. attempt_events ([env_unset_factory] ! j) j)
               [0..<length [env_unset_factory]]) = [Instantiate 0, Resolve 0]"
    by (simp add: attempt_events_def env_unset_factory_def)
  note inst = ec2_metadata_disabled
      [where env = disabled_env and new_URL = simple_URL and opts = no_options
         and pre = "[env_unset_factory]" and getCreds = scripted
         and inject = "\<lambda>provider. Inl Falsy", OF off]
  have a: "IMDSv2_constructor disabled_env simple_URL no_options =
     Inl (new_Error ''IMDSv2 client is disabled via environment: AWS_EC2_METADATA_DISABLED=true'')"
    using inst by (rule conjunct1)
  have b: "CredentialsProviderChain_getCredentials scripted
       \<lparr>chain = [env_unset_factory] @
                  [EC2MetadataCredentials_factory disabled_env simple_URL (\<lambda>provider. Inl Falsy)],
        supplier = None\<rparr> =
       (Inl (aggregate_error
          ([''    - EnvironmentCredentials('AWS') Error: AWS environment variables not set''] @
           [''    - EC2MetadataCredentials() Error: IMDSv2 client is disabled via environment: AWS_EC2_METADATA_DISABLED=true''])),
        \<lparr>chain = [env_unset_factory] @
                   [EC2MetadataCredentials_factory disabled_env simple_URL (\<lambda>provider. Inl Falsy)],
         supplier = None\<rparr>,
        [Instantiate 0, Resolve 0] @ [Instantiate (length [env_unset_factory])])"
    using inst [THEN conjunct2, THEN conjunct2, THEN conjunct2, THEN conjunct2, THEN conjunct2,
        THEN mp, OF fails]
    unfolding lines evs .
  show ?thesis
    using a b by (simp add: aggregate_error_def)
qed

end
